theory Spec2Isabelle
  imports Complex_Main "HOL-Library.Word"
begin

section \<open>The RealSense viewer: control state, keyboard dispatch and recorder\<close>

text \<open>
  The theory embeds the control logic of \<^verbatim>\<open>real_sense_viewer.cpp\<close>: the members of
  \<^verbatim>\<open>RealSenseViewer\<close> that the callbacks read and write, the keyboard callback, the
  cloud callback, the two recorder helpers, the body of the display loop and \<^verbatim>\<open>main\<close>.

  Each callback is taken as one atomic step. The on-screen status text and the console
  messages of \<^verbatim>\<open>pcl::console\<close> are output only: no callback reads them back, and they
  are not part of the state. The clouds handed to the viewer for display, standard error,
  the directories created and the files written are part of it.
\<close>

subsection \<open>Machine numbers\<close>

text \<open>
  \<^verbatim>\<open>int\<close> members are 32-bit words read as two's complement (\<open>sint\<close>); \<open>+\<close> and \<open>-\<close>
  wrap around.
\<close>

type_synonym int32 = "32 word"

text \<open>
  A finite \<^verbatim>\<open>float\<close> or \<^verbatim>\<open>double\<close> is the rational number it denotes. An arithmetic
  result is rounded to the nearest value with \<open>p\<close> significant bits, ties to the even
  significand (\<open>p = 24\<close> for \<^verbatim>\<open>float\<close>, \<open>p = 53\<close> for \<^verbatim>\<open>double\<close>). The exponent range is
  not bounded: the sums the key handlers form stay far from overflow, and a sum near zero
  is replaced by the clamp before it is stored.
\<close>

type_synonym float = rat

function log2 :: "int \<Rightarrow> int" where
  "log2 n = (if n < 2 then 0 else 1 + log2 (n div 2))"
  by pat_completeness auto
termination
  by (relation "measure nat") auto

declare log2.simps [simp del]

definition pow2 :: "int \<Rightarrow> rat" where
  "pow2 k = (if 0 \<le> k then 2 ^ nat k else 1 / 2 ^ nat (- k))"

definition exponent :: "rat \<Rightarrow> int" where
  "exponent x =
     (let (n, d) = quotient_of \<bar>x\<bar>;
          k = log2 n - log2 d
      in if pow2 k \<le> \<bar>x\<bar> then k else k - 1)"

definition round_even :: "rat \<Rightarrow> int" where
  "round_even x =
     (let f = \<lfloor>x\<rfloor>; d = x - of_int f
      in if d < 1 / 2 then f else if 1 / 2 < d then f + 1
         else if even f then f else f + 1)"

definition round_to :: "nat \<Rightarrow> rat \<Rightarrow> rat" where
  "round_to p x =
     (if x = 0 then 0
      else let q = pow2 (exponent x - int p + 1) in of_int (round_even (x / q)) * q)"

definition to_float :: "rat \<Rightarrow> float" where
  "to_float x = round_to 24 x"

definition to_double :: "rat \<Rightarrow> rat" where
  "to_double x = round_to 53 x"

text \<open>The literal \<^verbatim>\<open>0.01\<close> of the source is a \<^verbatim>\<open>double\<close>.\<close>

definition lit_0_01 :: rat where
  "lit_0_01 = to_double (1 / 100)"

subsection \<open>Stream formatting\<close>

text \<open>
  \<^verbatim>\<open>ss << std::setfill('0') << std::setw(4) << n\<close>: the decimal text of \<open>n\<close>, filled on
  the left with \<^verbatim>\<open>'0'\<close> up to four characters; a longer text is not cut.
\<close>

definition digit :: "int \<Rightarrow> char" where
  "digit d = ''0123456789'' ! nat d"

function dec :: "int \<Rightarrow> string" where
  "dec n = (if n < 10 then [digit n] else dec (n div 10) @ [digit (n mod 10)])"
  by pat_completeness auto
termination
  by (relation "measure nat") auto

declare dec.simps [simp del]

definition show_int :: "int \<Rightarrow> string" where
  "show_int i = (if i < 0 then CHR ''-'' # dec (- i) else dec i)"

definition setw4 :: "string \<Rightarrow> string" where
  "setw4 s = replicate (4 - length s) CHR ''0'' @ s"

definition fmt4 :: "int32 \<Rightarrow> string" where
  "fmt4 n = setw4 (show_int (sint n))"

subsection \<open>Data\<close>

text \<open>
  Modelled from the spec: the enumeration \<^verbatim>\<open>pcl::RealSenseGrabber::TemporalFilteringType\<close>
  is declared in \<^verbatim>\<open>real_sense_grabber.h\<close>, which is not among the sources. The spec names
  the modes none and average and a third mode, median; the source uses the three
  enumerators below.
\<close>

datatype TemporalFilteringType = RealSense_None | RealSense_Median | RealSense_Average

text \<open>
  A point cloud is known by the time stamp of its header. The output of the bilateral
  filter is kept symbolically, with the two sigmas it was computed with; the filter copies
  the header of its input.
\<close>

datatype cloud = Captured "64 word" | Filtered float float cloud

fun header_stamp :: "cloud \<Rightarrow> 64 word" where
  "header_stamp (Captured t) = t"
| "header_stamp (Filtered s r c) = header_stamp c"

datatype KeyboardEvent = KeyboardEvent (keyDown: bool) (getKeyCode: char)

record state =
  window :: int32
  threshold :: int32
  temporal_filtering :: TemporalFilteringType
  with_bilateral :: bool
  save_stream :: bool
  stream_id :: int32
  frame_id :: int32
  sigma_s :: float
  sigma_r :: float
  new_cloud :: "cloud option"
  last_cloud :: "cloud option"
  displayed :: "cloud list"
  stopped :: bool
  serial :: string
  pushed_threshold :: "int32 option"
  pushed_temporal :: "(TemporalFilteringType \<times> int32) option"
  dirs :: "string list"
  unwritable :: "string set"
  attempts :: "string list"
  written :: "(string \<times> cloud) list"
  err :: "string list"

text \<open>
  \<open>sigma_s\<close> and \<open>sigma_r\<close> are the two parameters held by the member \<^verbatim>\<open>bilateral_\<close>;
  \<open>displayed\<close> are the clouds handed to \<^verbatim>\<open>viewer_\<close> for display, in order;
  \<open>stopped\<close> is \<^verbatim>\<open>viewer_.wasStopped ()\<close>; \<open>serial\<close> is what
  \<^verbatim>\<open>grabber_.getDeviceSerialNumber ()\<close> returns; \<open>pushed_threshold\<close> and
  \<open>pushed_temporal\<close> are the last values handed to the grabber's two setters.
  \<open>dirs\<close> are the directories present in the working directory, \<open>unwritable\<close> the
  names the system refuses to create, \<open>attempts\<close> the names \<^verbatim>\<open>CreateDirectory\<close> was
  called with, \<open>written\<close> the point-cloud files saved, in order, and \<open>err\<close> the lines
  sent to \<^verbatim>\<open>std::cerr\<close>.
\<close>

datatype halt = Exit int | NullPointer

type_synonym result = "(halt \<times> state) + state"

subsection \<open>Constructor\<close>

text \<open>
  The filter's own default for the range sigma is set by the filter library and is a
  parameter here, as are the device's serial number and the working directory.
\<close>

definition RealSenseViewer :: "string \<Rightarrow> float \<Rightarrow> string list \<Rightarrow> string set \<Rightarrow> state" where
  "RealSenseViewer sn r0 ds uw =
     \<lparr> window = 3, threshold = 6, temporal_filtering = RealSense_None,
       with_bilateral = False, save_stream = False, stream_id = 0, frame_id = 0,
       sigma_s = 5, sigma_r = r0, new_cloud = None, last_cloud = None,
       displayed = [], stopped = False, serial = sn, pushed_threshold = None, pushed_temporal = None,
       dirs = ds, unwritable = uw, attempts = [], written = [], err = [] \<rparr>"

subsection \<open>Recorder\<close>

text \<open>
  \<^verbatim>\<open>CreateDirectory\<close> of the operating system: it fails when the name already exists
  or when the system refuses the name for another reason.
\<close>

definition CreateDirectory :: "string \<Rightarrow> state \<Rightarrow> bool \<times> state" where
  "CreateDirectory name st =
     (let st1 = st\<lparr>attempts := attempts st @ [name]\<rparr>
      in if name \<in> set (dirs st) \<or> name \<in> unwritable st
         then (False, st1)
         else (True, st1\<lparr>dirs := dirs st @ [name]\<rparr>))"

definition createStreamDirectory :: "state \<Rightarrow> result" where
  "createStreamDirectory st =
     (case CreateDirectory (fmt4 (stream_id st)) st of
        (False, st1) \<Rightarrow> Inl (Exit (- 1), st1\<lparr>err := err st1 @ [''Error creating save directory.'']\<rparr>)
      | (True, st1) \<Rightarrow> Inr st1)"

definition savePointCloud :: "cloud \<Rightarrow> state \<Rightarrow> state" where
  "savePointCloud c st =
     (let name = fmt4 (stream_id st) @ ''/'' @ fmt4 (frame_id st) @ ''.pcd''
      in st\<lparr>written := written st @ [(name, c)], frame_id := frame_id st + 1\<rparr>)"

subsection \<open>Callbacks\<close>

definition cloudCallback :: "cloud \<Rightarrow> state \<Rightarrow> state" where
  "cloudCallback c st =
     (if \<not> stopped st
      then let nc = (if with_bilateral st then Filtered (sigma_s st) (sigma_r st) c else c);
               st1 = st\<lparr>new_cloud := Some nc\<rparr>
           in if save_stream st1 then savePointCloud nc st1 else st1
      else st)"

definition key_w :: "char \<Rightarrow> state \<Rightarrow> state" where
  "key_w k st =
     (if k = CHR ''w'' \<or> k = CHR ''W''
      then let w1 = window st + (if k = CHR ''w'' then 1 else - 1);
               w2 = (if sint w1 < 1 then 1 else w1)
           in st\<lparr>window := w2, pushed_temporal := Some (temporal_filtering st, w2)\<rparr>
      else st)"

definition key_t :: "char \<Rightarrow> state \<Rightarrow> state" where
  "key_t k st =
     (if k = CHR ''t'' \<or> k = CHR ''T''
      then let t1 = threshold st + (if k = CHR ''t'' then 1 else - 1);
               t2 = (if sint t1 < 0 then 0 else t1);
               t3 = (if 15 < sint t2 then 15 else t2)
           in st\<lparr>threshold := t3, pushed_threshold := Some t3\<rparr>
      else st)"

definition key_k :: "char \<Rightarrow> state \<Rightarrow> state" where
  "key_k k st =
     (if k = CHR ''k''
      then let m = (case temporal_filtering st of
                      RealSense_None \<Rightarrow> RealSense_Average
                    | RealSense_Average \<Rightarrow> RealSense_None
                    | RealSense_Median \<Rightarrow> RealSense_Median)
           in st\<lparr>temporal_filtering := m, pushed_temporal := Some (m, window st)\<rparr>
      else st)"

definition key_b :: "char \<Rightarrow> state \<Rightarrow> state" where
  "key_b k st = (if k = CHR ''b'' then st\<lparr>with_bilateral := \<not> with_bilateral st\<rparr> else st)"

definition key_a :: "char \<Rightarrow> state \<Rightarrow> state" where
  "key_a k st =
     (if k = CHR ''a'' \<or> k = CHR ''A''
      then let s1 = to_float (sigma_s st + (if k = CHR ''a'' then 1 else - 1));
               s2 = (if s1 \<le> 1 then 1 else s1)
           in st\<lparr>sigma_s := s2\<rparr>
      else st)"

definition key_z :: "char \<Rightarrow> state \<Rightarrow> state" where
  "key_z k st =
     (if k = CHR ''z'' \<or> k = CHR ''Z''
      then let r1 = to_float (to_double (sigma_r st + (if k = CHR ''z'' then lit_0_01 else - lit_0_01)));
               r2 = (if r1 \<le> lit_0_01 then to_float lit_0_01 else r1)
           in st\<lparr>sigma_r := r2\<rparr>
      else st)"

definition key_p :: "char \<Rightarrow> state \<Rightarrow> result" where
  "key_p k st =
     (if k = CHR ''p''
      then (case last_cloud st of
              None \<Rightarrow> Inl (NullPointer, st)
            | Some c \<Rightarrow>
                let fn = ''RS_'' @ serial st @ ''_'' @ dec (uint (header_stamp c)) @ ''.pcd''
                in Inr (st\<lparr>written := written st @ [(fn, c)]\<rparr>))
      else Inr st)"

definition key_s :: "char \<Rightarrow> state \<Rightarrow> result" where
  "key_s k st =
     (if k = CHR ''s''
      then let st1 = st\<lparr>save_stream := \<not> save_stream st\<rparr>
           in if save_stream st1
              then createStreamDirectory
                     (st1\<lparr>stream_id := stream_id st1 + 1, frame_id := frame_id st1 + 1\<rparr>)
              else Inr (st1\<lparr>frame_id := 0\<rparr>)
      else Inr st)"

definition keyboardCallback :: "KeyboardEvent \<Rightarrow> state \<Rightarrow> result" where
  "keyboardCallback event st =
     (if keyDown event
      then let k = getKeyCode event
           in case key_p k (key_z k (key_a k (key_b k (key_k k (key_t k (key_w k st)))))) of
                Inl h \<Rightarrow> Inl h
              | Inr st1 \<Rightarrow> key_s k st1
      else Inr st)"

subsection \<open>Display loop\<close>

text \<open>
  The body of the \<^verbatim>\<open>if (new_cloud_)\<close> block of \<^verbatim>\<open>run\<close>: the new cloud goes to the
  viewer (\<^verbatim>\<open>updatePointCloud\<close>, or \<^verbatim>\<open>addPointCloud\<close> the first time) and becomes the
  last displayed one.
\<close>

definition refresh :: "state \<Rightarrow> state" where
  "refresh st =
     (case new_cloud st of
        None \<Rightarrow> st
      | Some c \<Rightarrow> st\<lparr>displayed := displayed st @ [c], last_cloud := Some c, new_cloud := None\<rparr>)"

text \<open>
  What happens to the viewer, one event at a time: the grabber delivers a frame
  (\<^verbatim>\<open>cloudCallback\<close>), the display hands over a key event (\<^verbatim>\<open>keyboardCallback\<close>), the
  loop of \<^verbatim>\<open>run\<close> looks for a new cloud, or the window is closed, after which
  \<^verbatim>\<open>viewer_.wasStopped ()\<close> holds.
\<close>

datatype event = Frame cloud | Key KeyboardEvent | Refresh | Close

fun step :: "event \<Rightarrow> state \<Rightarrow> result" where
  "step (Frame c) st = Inr (cloudCallback c st)"
| "step (Key e) st = keyboardCallback e st"
| "step Refresh st = Inr (refresh st)"
| "step Close st = Inr (st\<lparr>stopped := True\<rparr>)"

fun steps :: "event list \<Rightarrow> state \<Rightarrow> result" where
  "steps [] st = Inr st"
| "steps (e # es) st = (case step e st of Inl h \<Rightarrow> Inl h | Inr st1 \<Rightarrow> steps es st1)"

text \<open>
  \<^verbatim>\<open>run\<close>: the loop goes on while the viewer is not stopped. The events are what
  happens to the viewer, in order; when they end before the window is closed the loop is
  still running and there is no result.
\<close>

fun run :: "event list \<Rightarrow> state \<Rightarrow> result option" where
  "run [] st = (if stopped st then Some (Inr st) else None)"
| "run (e # es) st =
     (if stopped st then Some (Inr st)
      else case step e st of Inl h \<Rightarrow> Some (Inl h) | Inr st1 \<Rightarrow> run es st1)"

abbreviation press :: "char \<Rightarrow> event" where
  "press k \<equiv> Key (KeyboardEvent True k)"

text \<open>What a result shows: the state it ends in, and how the process ended, if it did.\<close>

fun final :: "result \<Rightarrow> state" where
  "final (Inl (h, st)) = st"
| "final (Inr st) = st"

fun halted :: "result \<Rightarrow> halt option" where
  "halted (Inl (h, st)) = Some h"
| "halted (Inr st) = None"

subsection \<open>The program\<close>

text \<open>
  \<^verbatim>\<open>pcl::console::find_switch\<close>: whether one of \<^verbatim>\<open>argv[1]\<close>, ..., \<^verbatim>\<open>argv[argc - 1]\<close> is
  the switch.
\<close>

definition find_switch :: "string list \<Rightarrow> string \<Rightarrow> bool" where
  "find_switch argv name = (name \<in> set (tl argv))"

text \<open>
  The device id \<^verbatim>\<open>main\<close> asks for: none when there is no argument, or when the only
  argument is \<^verbatim>\<open>--xyz\<close>; the last argument otherwise.
\<close>

definition device_id :: "string list \<Rightarrow> string" where
  "device_id argv =
     (let xyz_only = find_switch argv ''--xyz''; argc = length argv
      in if argc = 1 \<or> (argc = 2 \<and> xyz_only) then [] else last argv)"

text \<open>
  \<^verbatim>\<open>main\<close>, with \<open>argv = prog # args\<close>. The constructor of the grabber is a parameter:
  \<open>grabber\<close> lists the device ids it accepts, each with the serial number of the device
  it opens; for every other id it throws \<^verbatim>\<open>pcl::io::IOException\<close>. The result is the
  way the process ends, or \<open>None\<close> while the viewer is still running. The viewer for
  \<^verbatim>\<open>--xyz\<close> differs in the point type only. What \<^verbatim>\<open>printHelp\<close> and
  \<^verbatim>\<open>printDeviceList\<close> print is left out; \<^verbatim>\<open>printDeviceList\<close> returns at the first
  grabber that cannot be created.
\<close>

definition main :: "string \<Rightarrow> string list \<Rightarrow> (string \<times> string) list \<Rightarrow> float \<Rightarrow> string list
    \<Rightarrow> string set \<Rightarrow> event list \<Rightarrow> halt option" where
  "main prog args grabber r0 ds uw evs =
     (let argv = prog # args
      in if find_switch argv ''--help'' \<or> find_switch argv ''-h'' then Some (Exit 0)
         else if find_switch argv ''--list'' \<or> find_switch argv ''-l'' then Some (Exit 0)
         else case map_of grabber (device_id argv) of
                None \<Rightarrow> Some (Exit 1)
              | Some sn \<Rightarrow>
                  (case run evs (RealSenseViewer sn r0 ds uw) of
                     None \<Rightarrow> None
                   | Some (Inl (h, st)) \<Rightarrow> Some h
                   | Some (Inr st) \<Rightarrow> Some (Exit 0)))"

text \<open>Whether one of the switches that print and exit was given.\<close>

definition info_switch :: "string list \<Rightarrow> bool" where
  "info_switch argv =
     (find_switch argv ''--help'' \<or> find_switch argv ''-h''
      \<or> find_switch argv ''--list'' \<or> find_switch argv ''-l'')"

text \<open>Whether the directory of the next session cannot be created.\<close>

definition cannot_create :: "state \<Rightarrow> bool" where
  "cannot_create st =
     (fmt4 (stream_id st + 1) \<in> set (dirs st) \<or> fmt4 (stream_id st + 1) \<in> unwritable st)"

subsection \<open>Names for statements about the recorder\<close>

text \<open>
  \<open>frame_name st i\<close> is the file name \<^verbatim>\<open>savePointCloud\<close> builds once the frame counter
  of \<open>st\<close> has gone up by \<open>i\<close>; \<open>shown st c\<close> is the cloud the cloud callback keeps for
  the frame \<open>c\<close>: filtered when the bilateral filter is on.
\<close>

definition frame_name :: "state \<Rightarrow> nat \<Rightarrow> string" where
  "frame_name st i = fmt4 (stream_id st) @ ''/'' @ fmt4 (frame_id st + of_nat i) @ ''.pcd''"

definition shown :: "state \<Rightarrow> cloud \<Rightarrow> cloud" where
  "shown st c = (if with_bilateral st then Filtered (sigma_s st) (sigma_r st) c else c)"

text \<open>
  For a stretch of a session: \<open>delivered evs\<close> are the frames among the events \<open>evs\<close>,
  \<open>raw c\<close> is the captured cloud under the filter, \<open>is_manual f\<close> tells the files the p
  handler names (\<^verbatim>\<open>RS_...\<close>), and \<open>session_files st st'\<close> are the files written between
  the states \<open>st\<close> and \<open>st'\<close> that are not of that kind.
\<close>

definition is_manual :: "string \<times> cloud \<Rightarrow> bool" where
  "is_manual f = (take 3 (fst f) = ''RS_'')"

fun raw :: "cloud \<Rightarrow> cloud" where
  "raw (Captured t) = Captured t"
| "raw (Filtered s r c) = raw c"

fun delivered :: "event list \<Rightarrow> cloud list" where
  "delivered [] = []"
| "delivered (Frame c # es) = c # delivered es"
| "delivered (Key k # es) = delivered es"
| "delivered (Refresh # es) = delivered es"
| "delivered (Close # es) = delivered es"

definition session_files :: "state \<Rightarrow> state \<Rightarrow> (string \<times> cloud) list" where
  "session_files st st' = filter (\<lambda>f. \<not> is_manual f) (drop (length (written st)) (written st'))"

subsection \<open>Reading a formatted number back\<close>

definition dval :: "char \<Rightarrow> int" where
  "dval c = int (of_char c) - 48"

definition undec :: "string \<Rightarrow> int" where
  "undec s = foldl (\<lambda>a c. 10 * a + dval c) 0 s"

definition unfmt :: "string \<Rightarrow> int" where
  "unfmt s =
     (case dropWhile (\<lambda>c. c = CHR ''0'') s of
        [] \<Rightarrow> 0
      | c # r \<Rightarrow> if c = CHR ''-'' then - undec r else undec (c # r))"

section \<open>Formatting is injective\<close>

lemma digit_cases:
  "0 \<le> d \<Longrightarrow> d < 10 \<Longrightarrow>
   d = 0 \<or> d = 1 \<or> d = 2 \<or> d = 3 \<or> d = 4 \<or> d = 5 \<or> d = 6 \<or> d = 7 \<or> d = 8 \<or> d = (9::int)"
  by arith

lemma dval_digit: "0 \<le> d \<Longrightarrow> d < 10 \<Longrightarrow> dval (digit d) = d"
  using digit_cases [of d] by (auto simp add: dval_def digit_def)

lemma digit_not_minus: "0 \<le> d \<Longrightarrow> d < 10 \<Longrightarrow> digit d \<noteq> CHR ''-''"
  using digit_cases [of d] by (auto simp add: digit_def)

lemma digit_zero_iff: "0 \<le> d \<Longrightarrow> d < 10 \<Longrightarrow> digit d = CHR ''0'' \<longleftrightarrow> d = 0"
  using digit_cases [of d] by (auto simp add: digit_def)

lemma dec_not_Nil: "dec n \<noteq> []"
  by (subst dec.simps) simp

lemma undec_snoc: "undec (s @ [c]) = 10 * undec s + dval c"
  by (simp add: undec_def)

lemma undec_dec: "0 \<le> n \<Longrightarrow> undec (dec n) = n"
proof (induction n rule: dec.induct)
  case (1 n)
  show ?case
  proof (cases "n < 10")
    case True
    with 1 have "undec [digit n] = n"
      by (simp add: undec_def dval_digit)
    with True show ?thesis by (subst dec.simps) simp
  next
    case False
    with 1 have "undec (dec (n div 10)) = n div 10" by simp
    moreover have "dval (digit (n mod 10)) = n mod 10"
      by (simp add: dval_digit)
    ultimately have "undec (dec (n div 10) @ [digit (n mod 10)]) = n"
      by (simp add: undec_snoc)
    with False show ?thesis by (subst dec.simps) simp
  qed
qed

lemma hd_dec: "0 \<le> n \<Longrightarrow> hd (dec n) \<noteq> CHR ''-'' \<and> (hd (dec n) = CHR ''0'' \<longrightarrow> n = 0)"
proof (induction n rule: dec.induct)
  case (1 n)
  show ?case
  proof (cases "n < 10")
    case True
    with 1 have "digit n \<noteq> CHR ''-'' \<and> (digit n = CHR ''0'' \<longrightarrow> n = 0)"
      by (simp add: digit_not_minus digit_zero_iff)
    with True show ?thesis by (subst (1 2) dec.simps) simp
  next
    case False
    with 1 have "hd (dec (n div 10)) \<noteq> CHR ''-'' \<and> (hd (dec (n div 10)) = CHR ''0'' \<longrightarrow> n div 10 = 0)"
      by simp
    moreover from False have "n div 10 \<noteq> 0" by simp
    ultimately show ?thesis using False
      by (subst (1 2) dec.simps) (simp add: dec_not_Nil)
  qed
qed

lemma dropWhile_pad: "dropWhile (\<lambda>c. c = x) (replicate k x @ s) = dropWhile (\<lambda>c. c = x) s"
  by (induction k) simp_all

lemma dropWhile_hd: "s \<noteq> [] \<Longrightarrow> hd s \<noteq> x \<Longrightarrow> dropWhile (\<lambda>c. c = x) s = s"
  by (cases s) simp_all

lemma unfmt_setw4: "unfmt (setw4 (show_int i)) = i"
proof -
  consider "i < 0" | "i = 0" | "0 < i" by arith
  then show ?thesis
  proof cases
    case 1
    then show ?thesis
      by (simp add: unfmt_def setw4_def show_int_def dropWhile_pad undec_dec)
  next
    case 2
    have "dec 0 = ''0''" by (subst dec.simps) (simp add: digit_def)
    with 2 show ?thesis
      by (simp add: unfmt_def setw4_def show_int_def dropWhile_pad)
  next
    case 3
    then have h: "hd (dec i) \<noteq> CHR ''-''" "hd (dec i) \<noteq> CHR ''0''"
      using hd_dec [of i] by auto
    then have "dropWhile (\<lambda>c. c = CHR ''0'') (dec i) = dec i"
      by (simp add: dropWhile_hd dec_not_Nil)
    moreover obtain c r where cr: "dec i = c # r"
      using dec_not_Nil [of i] by (cases "dec i") auto
    ultimately show ?thesis using 3 h undec_dec [of i]
      by (simp add: unfmt_def setw4_def show_int_def dropWhile_pad)
  qed
qed

lemma fmt4_inj: "fmt4 a = fmt4 b \<longleftrightarrow> a = b"
proof
  assume "fmt4 a = fmt4 b"
  then have "unfmt (fmt4 a) = unfmt (fmt4 b)" by simp
  then have "sint a = sint b" by (simp add: fmt4_def unfmt_setw4)
  then show "a = b" by (rule signed_word_eqI)
qed simp

section \<open>One key event, one handler\<close>

lemma key_w_other: "k \<noteq> CHR ''w'' \<Longrightarrow> k \<noteq> CHR ''W'' \<Longrightarrow> key_w k st = st"
  by (simp add: key_w_def)

lemma key_t_other: "k \<noteq> CHR ''t'' \<Longrightarrow> k \<noteq> CHR ''T'' \<Longrightarrow> key_t k st = st"
  by (simp add: key_t_def)

lemma key_k_other: "k \<noteq> CHR ''k'' \<Longrightarrow> key_k k st = st"
  by (simp add: key_k_def)

lemma key_b_other: "k \<noteq> CHR ''b'' \<Longrightarrow> key_b k st = st"
  by (simp add: key_b_def)

lemma key_a_other: "k \<noteq> CHR ''a'' \<Longrightarrow> k \<noteq> CHR ''A'' \<Longrightarrow> key_a k st = st"
  by (simp add: key_a_def)

lemma key_z_other: "k \<noteq> CHR ''z'' \<Longrightarrow> k \<noteq> CHR ''Z'' \<Longrightarrow> key_z k st = st"
  by (simp add: key_z_def)

lemma key_p_other: "k \<noteq> CHR ''p'' \<Longrightarrow> key_p k st = Inr st"
  by (simp add: key_p_def)

lemma key_s_other: "k \<noteq> CHR ''s'' \<Longrightarrow> key_s k st = Inr st"
  by (simp add: key_s_def)

lemmas key_other =
  key_w_other key_t_other key_k_other key_b_other key_a_other key_z_other key_p_other key_s_other

lemma keyboardCallback_up: "\<not> keyDown e \<Longrightarrow> keyboardCallback e st = Inr st"
  by (simp add: keyboardCallback_def)

lemma keyboardCallback_w:
  "k = CHR ''w'' \<or> k = CHR ''W'' \<Longrightarrow> keyboardCallback (KeyboardEvent True k) st = Inr (key_w k st)"
  by (auto simp: keyboardCallback_def key_other)

lemma keyboardCallback_t:
  "k = CHR ''t'' \<or> k = CHR ''T'' \<Longrightarrow> keyboardCallback (KeyboardEvent True k) st = Inr (key_t k st)"
  by (auto simp: keyboardCallback_def key_other)

lemma keyboardCallback_k:
  "keyboardCallback (KeyboardEvent True CHR ''k'') st = Inr (key_k CHR ''k'' st)"
  by (simp add: keyboardCallback_def key_other)

lemma keyboardCallback_b:
  "keyboardCallback (KeyboardEvent True CHR ''b'') st = Inr (key_b CHR ''b'' st)"
  by (simp add: keyboardCallback_def key_other)

lemma keyboardCallback_a:
  "k = CHR ''a'' \<or> k = CHR ''A'' \<Longrightarrow> keyboardCallback (KeyboardEvent True k) st = Inr (key_a k st)"
  by (auto simp: keyboardCallback_def key_other)

lemma keyboardCallback_z:
  "k = CHR ''z'' \<or> k = CHR ''Z'' \<Longrightarrow> keyboardCallback (KeyboardEvent True k) st = Inr (key_z k st)"
  by (auto simp: keyboardCallback_def key_other)

lemma keyboardCallback_p:
  "keyboardCallback (KeyboardEvent True CHR ''p'') st = key_p CHR ''p'' st"
  by (simp add: keyboardCallback_def key_other Let_def split: sum.splits)

lemma keyboardCallback_s:
  "keyboardCallback (KeyboardEvent True CHR ''s'') st = key_s CHR ''s'' st"
  by (simp add: keyboardCallback_def key_other)

lemma keyboardCallback_other:
  "k \<notin> set ''wWtTkbaAzZps'' \<Longrightarrow> keyboardCallback (KeyboardEvent True k) st = Inr st"
  by (simp add: keyboardCallback_def key_other)

text \<open>One key event runs at most one of the handlers.\<close>

lemma keyboardCallback_cases:
  obtains
    (up) "\<not> keyDown e" "keyboardCallback e st = Inr st"
  | (w) "keyDown e" "keyboardCallback e st = Inr (key_w (getKeyCode e) st)"
  | (t) "keyDown e" "keyboardCallback e st = Inr (key_t (getKeyCode e) st)"
  | (k) "keyDown e" "keyboardCallback e st = Inr (key_k (getKeyCode e) st)"
  | (b) "keyDown e" "keyboardCallback e st = Inr (key_b (getKeyCode e) st)"
  | (a) "keyDown e" "keyboardCallback e st = Inr (key_a (getKeyCode e) st)"
  | (z) "keyDown e" "keyboardCallback e st = Inr (key_z (getKeyCode e) st)"
  | (p) "keyDown e" "getKeyCode e = CHR ''p''" "keyboardCallback e st = key_p CHR ''p'' st"
  | (s) "keyDown e" "getKeyCode e = CHR ''s''" "keyboardCallback e st = key_s CHR ''s'' st"
proof (cases e)
  case (KeyboardEvent d c)
  show ?thesis
  proof (cases d)
    case False
    with KeyboardEvent up show ?thesis by (simp add: keyboardCallback_up)
  next
    case True
    consider "c = CHR ''w'' \<or> c = CHR ''W''" | "c = CHR ''t'' \<or> c = CHR ''T''"
      | "c = CHR ''k''" | "c = CHR ''b''" | "c = CHR ''a'' \<or> c = CHR ''A''"
      | "c = CHR ''z'' \<or> c = CHR ''Z''" | "c = CHR ''p''" | "c = CHR ''s''"
      | "c \<notin> set ''wWtTkbaAzZps''"
      by auto
    then show ?thesis
    proof cases
      case 1 with KeyboardEvent True w show ?thesis by (simp add: keyboardCallback_w)
    next
      case 2 with KeyboardEvent True t show ?thesis by (simp add: keyboardCallback_t)
    next
      case 3 with KeyboardEvent True k show ?thesis by (simp add: keyboardCallback_k)
    next
      case 4 with KeyboardEvent True b show ?thesis by (simp add: keyboardCallback_b)
    next
      case 5 with KeyboardEvent True a show ?thesis by (simp add: keyboardCallback_a)
    next
      case 6 with KeyboardEvent True z show ?thesis by (simp add: keyboardCallback_z)
    next
      case 7 with KeyboardEvent True p show ?thesis by (simp add: keyboardCallback_p)
    next
      case 8 with KeyboardEvent True s show ?thesis by (simp add: keyboardCallback_s)
    next
      case 9
      then have "key_w c st = st" by (simp add: key_other)
      with 9 KeyboardEvent True w show ?thesis by (simp add: keyboardCallback_other)
    qed
  qed
qed

section \<open>Fields a handler leaves alone\<close>

lemma key_w_keeps [simp]:
  "temporal_filtering (key_w k st) = temporal_filtering st"
  "save_stream (key_w k st) = save_stream st"
  "frame_id (key_w k st) = frame_id st"
  "last_cloud (key_w k st) = last_cloud st"
  by (simp_all add: key_w_def Let_def)

lemma key_t_keeps [simp]:
  "temporal_filtering (key_t k st) = temporal_filtering st"
  "save_stream (key_t k st) = save_stream st"
  "frame_id (key_t k st) = frame_id st"
  "last_cloud (key_t k st) = last_cloud st"
  by (simp_all add: key_t_def Let_def)

lemma key_k_keeps [simp]:
  "save_stream (key_k k st) = save_stream st"
  "frame_id (key_k k st) = frame_id st"
  "last_cloud (key_k k st) = last_cloud st"
  by (simp_all add: key_k_def Let_def)

lemma key_b_keeps [simp]:
  "temporal_filtering (key_b k st) = temporal_filtering st"
  "save_stream (key_b k st) = save_stream st"
  "frame_id (key_b k st) = frame_id st"
  "last_cloud (key_b k st) = last_cloud st"
  by (simp_all add: key_b_def)

lemma key_a_keeps [simp]:
  "temporal_filtering (key_a k st) = temporal_filtering st"
  "save_stream (key_a k st) = save_stream st"
  "frame_id (key_a k st) = frame_id st"
  "last_cloud (key_a k st) = last_cloud st"
  by (simp_all add: key_a_def Let_def)

lemma key_z_keeps [simp]:
  "temporal_filtering (key_z k st) = temporal_filtering st"
  "save_stream (key_z k st) = save_stream st"
  "frame_id (key_z k st) = frame_id st"
  "last_cloud (key_z k st) = last_cloud st"
  by (simp_all add: key_z_def Let_def)

lemma key_p_keeps:
  assumes "key_p k st = Inr st'"
  shows "temporal_filtering st' = temporal_filtering st" "save_stream st' = save_stream st"
    "frame_id st' = frame_id st" "last_cloud st' = last_cloud st"
  using assms by (auto simp: key_p_def Let_def split: if_splits option.splits)

lemma createStreamDirectory_keeps:
  assumes "createStreamDirectory st = Inr st'"
  shows "temporal_filtering st' = temporal_filtering st" "save_stream st' = save_stream st"
    "frame_id st' = frame_id st" "last_cloud st' = last_cloud st" "stream_id st' = stream_id st"
  using assms
  by (auto simp: createStreamDirectory_def CreateDirectory_def Let_def split: if_splits)

lemma key_s_keeps:
  assumes "key_s k st = Inr st'"
  shows "temporal_filtering st' = temporal_filtering st" "last_cloud st' = last_cloud st"
  using assms
  by (auto simp: key_s_def Let_def dest: createStreamDirectory_keeps split: if_splits)

lemma key_s_idle:
  assumes "key_s k st = Inr st'" "\<not> save_stream st \<longrightarrow> frame_id st = 0"
  shows "\<not> save_stream st' \<longrightarrow> frame_id st' = 0"
  using assms
  by (auto simp: key_s_def Let_def dest: createStreamDirectory_keeps split: if_splits)

lemma cloudCallback_keeps [simp]:
  "temporal_filtering (cloudCallback c st) = temporal_filtering st"
  "save_stream (cloudCallback c st) = save_stream st"
  "last_cloud (cloudCallback c st) = last_cloud st"
  by (simp_all add: cloudCallback_def savePointCloud_def Let_def)

lemma cloudCallback_idle [simp]:
  "\<not> save_stream st \<Longrightarrow> frame_id (cloudCallback c st) = frame_id st"
  by (simp add: cloudCallback_def Let_def)

lemma refresh_keeps [simp]:
  "temporal_filtering (refresh st) = temporal_filtering st"
  "save_stream (refresh st) = save_stream st"
  "frame_id (refresh st) = frame_id st"
  by (simp_all add: refresh_def split: option.splits)

lemma key_k_not_median:
  "temporal_filtering (key_k k st) = RealSense_Median \<longleftrightarrow> temporal_filtering st = RealSense_Median"
  by (simp add: key_k_def Let_def split: TemporalFilteringType.splits)

subsection \<open>What every step keeps\<close>

lemma step_not_median:
  assumes "step e st = Inr st'" "temporal_filtering st \<noteq> RealSense_Median"
  shows "temporal_filtering st' \<noteq> RealSense_Median"
proof (cases e)
  case (Key ev)
  with assms have kc: "keyboardCallback ev st = Inr st'" by simp
  show ?thesis
    by (rule keyboardCallback_cases [of ev st])
       (use kc assms(2) in \<open>auto simp: key_k_not_median dest: key_p_keeps [OF sym] key_s_keeps [OF sym]\<close>)
qed (use assms in auto)

lemma step_idle:
  assumes "step e st = Inr st'" "\<not> save_stream st \<longrightarrow> frame_id st = 0"
  shows "\<not> save_stream st' \<longrightarrow> frame_id st' = 0"
proof (cases e)
  case (Key ev)
  with assms have kc: "keyboardCallback ev st = Inr st'" by simp
  show ?thesis
    by (rule keyboardCallback_cases [of ev st])
       (use kc assms(2) in \<open>auto dest: key_p_keeps [OF sym] key_s_idle [OF sym]\<close>)
qed (use assms in auto)

lemma step_last_cloud:
  assumes "step e st = Inr st'" "e \<noteq> Refresh"
  shows "last_cloud st' = last_cloud st"
proof (cases e)
  case (Key ev)
  with assms have kc: "keyboardCallback ev st = Inr st'" by simp
  show ?thesis
    by (rule keyboardCallback_cases [of ev st])
       (use kc in \<open>auto dest: key_p_keeps [OF sym] key_s_keeps [OF sym]\<close>)
qed (use assms in auto)

lemma steps_induct_inv:
  assumes "steps evs st = Inr st'" "P st"
    and "\<And>e s s'. e \<in> set evs \<Longrightarrow> step e s = Inr s' \<Longrightarrow> P s \<Longrightarrow> P s'"
  shows "P st'"
  using assms
proof (induction evs arbitrary: st)
  case Nil
  then show ?case by simp
next
  case (Cons e evs)
  from Cons.prems(1) obtain s1 where s1: "step e st = Inr s1" "steps evs s1 = Inr st'"
    by (auto split: sum.splits)
  from s1(1) Cons.prems(2) have "P s1" by (rule Cons.prems(3) [rotated]) simp
  moreover have "P s'" if "x \<in> set evs" "step x s = Inr s'" "P s" for x s s'
    using that Cons.prems(3) [of x s s'] by simp
  ultimately show ?case using s1(2) Cons.IH by blast
qed

section \<open>Keys that do nothing\<close>

text \<open>
  C10. A key-down event for a key that is none of w, W, t, T, k, b, a, A, z, Z, p, s, and
  every key-up event, leaves the whole state as it was.
\<close>

theorem unknown_key_no_effect:
  "\<not> keyDown e \<or> getKeyCode e \<notin> set ''wWtTkbaAzZps'' \<Longrightarrow> keyboardCallback e st = Inr st"
  by (cases e; cases "keyDown e") (auto simp: keyboardCallback_up keyboardCallback_other)

theorem unknown_key_no_effect_witness:
  "keyboardCallback (KeyboardEvent False CHR ''s'') (RealSenseViewer ''231400041-03'' (1 / 20) [] {})
     = Inr (RealSenseViewer ''231400041-03'' (1 / 20) [] {})
   \<and> keyboardCallback (KeyboardEvent True CHR ''x'') (RealSenseViewer ''231400041-03'' (1 / 20) [] {})
     = Inr (RealSenseViewer ''231400041-03'' (1 / 20) [] {})"
  using unknown_key_no_effect [of "KeyboardEvent False CHR ''s''" "RealSenseViewer ''231400041-03'' (1 / 20) [] {}"]
    unknown_key_no_effect [of "KeyboardEvent True CHR ''x''" "RealSenseViewer ''231400041-03'' (1 / 20) [] {}"]
  by simp

section \<open>More fields a handler leaves alone\<close>

lemma key_w_rest [simp]:
  "stopped (key_w k st) = stopped st" "stream_id (key_w k st) = stream_id st"
  "written (key_w k st) = written st" "displayed (key_w k st) = displayed st"
  "dirs (key_w k st) = dirs st" "unwritable (key_w k st) = unwritable st"
  by (simp_all add: key_w_def Let_def)

lemma key_t_rest [simp]:
  "stopped (key_t k st) = stopped st" "stream_id (key_t k st) = stream_id st"
  "written (key_t k st) = written st" "displayed (key_t k st) = displayed st"
  "dirs (key_t k st) = dirs st" "unwritable (key_t k st) = unwritable st"
  by (simp_all add: key_t_def Let_def)

lemma key_k_rest [simp]:
  "stopped (key_k k st) = stopped st" "stream_id (key_k k st) = stream_id st"
  "written (key_k k st) = written st" "displayed (key_k k st) = displayed st"
  "dirs (key_k k st) = dirs st" "unwritable (key_k k st) = unwritable st"
  by (simp_all add: key_k_def Let_def)

lemma key_b_rest [simp]:
  "stopped (key_b k st) = stopped st" "stream_id (key_b k st) = stream_id st"
  "written (key_b k st) = written st" "displayed (key_b k st) = displayed st"
  "dirs (key_b k st) = dirs st" "unwritable (key_b k st) = unwritable st"
  by (simp_all add: key_b_def)

lemma key_a_rest [simp]:
  "stopped (key_a k st) = stopped st" "stream_id (key_a k st) = stream_id st"
  "written (key_a k st) = written st" "displayed (key_a k st) = displayed st"
  "dirs (key_a k st) = dirs st" "unwritable (key_a k st) = unwritable st"
  by (simp_all add: key_a_def Let_def)

lemma key_z_rest [simp]:
  "stopped (key_z k st) = stopped st" "stream_id (key_z k st) = stream_id st"
  "written (key_z k st) = written st" "displayed (key_z k st) = displayed st"
  "dirs (key_z k st) = dirs st" "unwritable (key_z k st) = unwritable st"
  by (simp_all add: key_z_def Let_def)

lemma key_p_rest:
  assumes "key_p k st = Inr st'"
  shows "stopped st' = stopped st" "stream_id st' = stream_id st" "displayed st' = displayed st"
    "dirs st' = dirs st" "unwritable st' = unwritable st"
  using assms by (auto simp: key_p_def Let_def split: if_splits option.splits)

lemma key_s_rest:
  assumes "key_s k st = Inr st'"
  shows "stopped st' = stopped st" "displayed st' = displayed st"
  using assms
  by (auto simp: key_s_def createStreamDirectory_def CreateDirectory_def Let_def split: if_splits)

lemma cloudCallback_rest [simp]:
  "stopped (cloudCallback c st) = stopped st" "stream_id (cloudCallback c st) = stream_id st"
  "displayed (cloudCallback c st) = displayed st"
  "dirs (cloudCallback c st) = dirs st" "unwritable (cloudCallback c st) = unwritable st"
  by (simp_all add: cloudCallback_def savePointCloud_def Let_def)

lemma refresh_rest [simp]:
  "stopped (refresh st) = stopped st" "stream_id (refresh st) = stream_id st"
  "written (refresh st) = written st"
  "dirs (refresh st) = dirs st" "unwritable (refresh st) = unwritable st"
  by (simp_all add: refresh_def split: option.splits)

lemma step_stays_stopped:
  assumes "step e st = Inr st'" "stopped st"
  shows "stopped st'"
proof (cases e)
  case (Key ev)
  with assms have kc: "keyboardCallback ev st = Inr st'" by simp
  show ?thesis
    by (rule keyboardCallback_cases [of ev st])
       (use kc assms(2) in \<open>auto dest: key_p_rest [OF sym] key_s_rest [OF sym]\<close>)
qed (use assms in auto)

lemma steps_stays_stopped:
  assumes "steps evs st = Inr st'" "stopped st"
  shows "stopped st'"
  using assms by (rule steps_induct_inv) (rule step_stays_stopped)

section \<open>Manual save\<close>

lemma step_nothing_displayed:
  assumes "step e st = Inr st'" "displayed st' = []" "displayed st = [] \<longrightarrow> last_cloud st = None"
  shows "last_cloud st' = None"
proof (cases e)
  case (Key ev)
  with assms have kc: "keyboardCallback ev st = Inr st'" by simp
  show ?thesis
    by (rule keyboardCallback_cases [of ev st])
       (use kc assms(2,3) in \<open>auto dest: key_p_rest [OF sym] key_s_rest [OF sym]
          key_p_keeps [OF sym] key_s_keeps [OF sym]\<close>)
next
  case Refresh
  with assms show ?thesis by (auto simp: refresh_def split: option.splits)
qed (use assms in auto)

lemma reachable_nothing_displayed:
  assumes "steps evs (RealSenseViewer sn r0 ds uw) = Inr st"
  shows "displayed st = [] \<longrightarrow> last_cloud st = None"
proof -
  have "displayed (RealSenseViewer sn r0 ds uw) = [] \<longrightarrow> last_cloud (RealSenseViewer sn r0 ds uw) = None"
    by (simp add: RealSenseViewer_def)
  with assms show ?thesis
  proof (rule steps_induct_inv)
    fix e s s'
    assume "step e s = Inr s'" "displayed s = [] \<longrightarrow> last_cloud s = None"
    then show "displayed s' = [] \<longrightarrow> last_cloud s' = None"
      by (auto dest: step_nothing_displayed)
  qed
qed

text \<open>
  C5. In every state the viewer can reach in which no cloud has been handed to the
  display yet, whatever events came before (display passes that found no new cloud, other
  keys, frames still waiting to be displayed), the pointer to the last displayed cloud is
  null, and a press of p dereferences it: the process ends there, and nothing is saved.
\<close>

theorem manual_save_before_display:
  assumes "steps evs (RealSenseViewer sn r0 ds uw) = Inr st" and "displayed st = []"
  shows "keyboardCallback (KeyboardEvent True CHR ''p'') st = Inl (NullPointer, st)"
proof -
  from assms(1) have "displayed st = [] \<longrightarrow> last_cloud st = None"
    by (rule reachable_nothing_displayed)
  with assms(2) have "last_cloud st = None" by simp
  then show ?thesis by (simp add: keyboardCallback_p key_p_def)
qed

theorem manual_save_before_display_witness:
  "halted (steps [Refresh, press CHR ''t'', Refresh, Frame (Captured 7), press CHR ''p'']
             (RealSenseViewer ''231400041-03'' (1 / 20) [] {})) = Some NullPointer
   \<and> written (final (steps [Refresh, press CHR ''t'', Refresh, Frame (Captured 7), press CHR ''p'']
             (RealSenseViewer ''231400041-03'' (1 / 20) [] {}))) = []"
proof -
  define st where "st = final (steps [Refresh, press CHR ''t'', Refresh, Frame (Captured 7)]
      (RealSenseViewer ''231400041-03'' (1 / 20) [] {}))"
  have st: "steps [Refresh, press CHR ''t'', Refresh, Frame (Captured 7)]
      (RealSenseViewer ''231400041-03'' (1 / 20) [] {}) = Inr st"
    by (simp add: st_def keyboardCallback_t)
  have d: "displayed st = []" "written st = []"
    by (simp_all add: st_def keyboardCallback_t key_t_def cloudCallback_def refresh_def
        RealSenseViewer_def Let_def)
  from st d(1) have "keyboardCallback (KeyboardEvent True CHR ''p'') st = Inl (NullPointer, st)"
    by (rule manual_save_before_display)
  moreover have "steps [Refresh, press CHR ''t'', Refresh, Frame (Captured 7), press CHR ''p'']
      (RealSenseViewer ''231400041-03'' (1 / 20) [] {})
    = (case steps [Refresh, press CHR ''t'', Refresh, Frame (Captured 7)]
        (RealSenseViewer ''231400041-03'' (1 / 20) [] {}) of
        Inl h \<Rightarrow> Inl h | Inr s \<Rightarrow> keyboardCallback (KeyboardEvent True CHR ''p'') s)"
    by (simp split: sum.splits)
  ultimately show ?thesis using st d(2) by simp
qed

section \<open>Confidence threshold\<close>

lemma key_t_range:
  "0 \<le> sint (threshold (key_t k st)) \<and> sint (threshold (key_t k st)) \<le> 15" if "k = CHR ''t'' \<or> k = CHR ''T''"
  using that by (auto simp: key_t_def Let_def)

lemma steps_threshold:
  assumes "set ks \<subseteq> {CHR ''t'', CHR ''T''}"
    and "0 \<le> sint (threshold st) \<and> sint (threshold st) \<le> 15"
  shows "halted (steps (map press ks) st) = None
    \<and> 0 \<le> sint (threshold (final (steps (map press ks) st)))
    \<and> sint (threshold (final (steps (map press ks) st))) \<le> 15"
  using assms
proof (induction ks arbitrary: st)
  case Nil
  then show ?case by simp
next
  case (Cons k ks)
  then have k: "k = CHR ''t'' \<or> k = CHR ''T''" by auto
  then have "steps (map press (k # ks)) st = steps (map press ks) (key_t k st)"
    by (simp add: keyboardCallback_t)
  moreover from Cons.prems have "set ks \<subseteq> {CHR ''t'', CHR ''T''}" by simp
  ultimately show ?case using Cons.IH [of "key_t k st"] key_t_range [OF k, of st] by simp
qed

text \<open>
  C6. Starting from the threshold 6 the constructor sets, after every press of a sequence
  of t and T presses the confidence threshold is at least 0 and at most 15.
\<close>

theorem threshold_stays_in_range:
  assumes "set ks \<subseteq> {CHR ''t'', CHR ''T''}"
  shows "halted (steps (map press (take n ks)) (RealSenseViewer sn r0 ds uw)) = None
    \<and> 0 \<le> sint (threshold (final (steps (map press (take n ks)) (RealSenseViewer sn r0 ds uw))))
    \<and> sint (threshold (final (steps (map press (take n ks)) (RealSenseViewer sn r0 ds uw)))) \<le> 15"
proof (rule steps_threshold)
  from assms show "set (take n ks) \<subseteq> {CHR ''t'', CHR ''T''}"
    using set_take_subset [of n ks] by blast
  show "0 \<le> sint (threshold (RealSenseViewer sn r0 ds uw)) \<and> sint (threshold (RealSenseViewer sn r0 ds uw)) \<le> 15"
    by (simp add: RealSenseViewer_def)
qed

theorem threshold_stays_in_range_witness:
  "threshold (final (steps (map press ''tttttttttttt'') (RealSenseViewer ''231400041-03'' (1 / 20) [] {}))) = 15
   \<and> threshold (final (steps (map press ''TTTTTTTT'') (RealSenseViewer ''231400041-03'' (1 / 20) [] {}))) = 0
   \<and> sint (threshold (final (steps (map press (take 3 ''ttTt'')) (RealSenseViewer ''231400041-03'' (1 / 20) [] {})))) \<le> 15"
proof -
  have "set ''ttTt'' \<subseteq> {CHR ''t'', CHR ''T''}" by simp
  from threshold_stays_in_range [OF this, of 3 "''231400041-03''" "1 / 20" "[]" "{}"]
  show ?thesis
    by (simp add: keyboardCallback_t key_t_def RealSenseViewer_def)
qed

section \<open>Temporal filtering mode\<close>

lemma reachable_not_median:
  assumes "steps evs (RealSenseViewer sn r0 ds uw) = Inr st"
  shows "temporal_filtering st \<noteq> RealSense_Median"
proof -
  have "temporal_filtering (RealSenseViewer sn r0 ds uw) \<noteq> RealSense_Median"
    by (simp add: RealSenseViewer_def)
  with assms show ?thesis
    by (rule steps_induct_inv) (rule step_not_median)
qed

text \<open>
  C3, as the claim states it, fails: the k handler switches between two modes, so three
  presses from the mode none end in the mode average.
\<close>

theorem three_k_presses_counterexample:
  "temporal_filtering (RealSenseViewer ''231400041-03'' (1 / 20) [] {}) = RealSense_None
   \<and> temporal_filtering (final (steps [press CHR ''k'', press CHR ''k'', press CHR ''k'']
        (RealSenseViewer ''231400041-03'' (1 / 20) [] {}))) = RealSense_Average"
  by (simp add: keyboardCallback_k key_k_def RealSenseViewer_def)

text \<open>
  C3, amended. A mode reached through the keyboard is none or average, never median. From
  such a mode one press of k gives the other of the two (none to average, average to
  none), two presses give the starting mode back, and three presses give the other mode.
\<close>

theorem temporal_mode_cycle:
  assumes "steps evs (RealSenseViewer sn r0 ds uw) = Inr st"
  shows "temporal_filtering st \<noteq> RealSense_Median
    \<and> halted (steps [press CHR ''k'', press CHR ''k'', press CHR ''k''] st) = None
    \<and> temporal_filtering (final (steps [press CHR ''k''] st))
        = (if temporal_filtering st = RealSense_None then RealSense_Average else RealSense_None)
    \<and> temporal_filtering (final (steps [press CHR ''k'', press CHR ''k''] st)) = temporal_filtering st
    \<and> temporal_filtering (final (steps [press CHR ''k'', press CHR ''k'', press CHR ''k''] st))
        \<noteq> temporal_filtering st"
proof -
  from assms have "temporal_filtering st \<noteq> RealSense_Median"
    by (rule reachable_not_median)
  then show ?thesis
    by (cases "temporal_filtering st") (simp_all add: keyboardCallback_k key_k_def)
qed

theorem temporal_mode_cycle_witness:
  "temporal_filtering (final (steps [press CHR ''k'', press CHR ''k'']
      (final (steps [press CHR ''w'', press CHR ''k''] (RealSenseViewer ''231400041-03'' (1 / 20) [] {})))))
    = RealSense_Average
   \<and> temporal_filtering (final (steps [press CHR ''k'']
      (final (steps [press CHR ''w'', press CHR ''k''] (RealSenseViewer ''231400041-03'' (1 / 20) [] {})))))
    = RealSense_None"
proof -
  obtain st where st: "steps [press CHR ''w'', press CHR ''k'']
      (RealSenseViewer ''231400041-03'' (1 / 20) [] {}) = Inr st"
    by (simp add: keyboardCallback_k keyboardCallback_w)
  then have tf: "temporal_filtering st = RealSense_Average"
    by (auto simp: keyboardCallback_k keyboardCallback_w key_k_def key_w_def RealSenseViewer_def)
  from temporal_mode_cycle [OF st] tf st show ?thesis by simp
qed

section \<open>Failure to create the session directory\<close>

text \<open>
  C8. When recording is turned on and the session directory cannot be created, the
  handler writes one line to standard error and the process exits with status -1:
  CreateDirectory has been called once, no directory and no file has been added, and
  whatever events would have followed have no effect.
\<close>

theorem directory_failure_is_fatal:
  assumes "\<not> save_stream st"
    and "fmt4 (stream_id st + 1) \<in> set (dirs st) \<or> fmt4 (stream_id st + 1) \<in> unwritable st"
  shows "halted (steps (press CHR ''s'' # evs) st) = Some (Exit (- 1))
    \<and> err (final (steps (press CHR ''s'' # evs) st)) = err st @ [''Error creating save directory.'']
    \<and> attempts (final (steps (press CHR ''s'' # evs) st)) = attempts st @ [fmt4 (stream_id st + 1)]
    \<and> dirs (final (steps (press CHR ''s'' # evs) st)) = dirs st
    \<and> written (final (steps (press CHR ''s'' # evs) st)) = written st"
  using assms
  by (auto simp: keyboardCallback_s key_s_def createStreamDirectory_def CreateDirectory_def Let_def)

theorem directory_failure_is_fatal_witness:
  "halted (steps [press CHR ''s'', Frame (Captured 1), press CHR ''s'']
     (RealSenseViewer ''231400041-03'' (1 / 20) [''0001''] {})) = Some (Exit (- 1))
   \<and> err (final (steps [press CHR ''s'', Frame (Captured 1), press CHR ''s'']
     (RealSenseViewer ''231400041-03'' (1 / 20) [''0001''] {}))) = [''Error creating save directory.'']
   \<and> attempts (final (steps [press CHR ''s'', Frame (Captured 1), press CHR ''s'']
     (RealSenseViewer ''231400041-03'' (1 / 20) [''0001''] {}))) = [''0001'']
   \<and> written (final (steps [press CHR ''s'', Frame (Captured 1), press CHR ''s'']
     (RealSenseViewer ''231400041-03'' (1 / 20) [''0001''] {}))) = []"
proof -
  have f: "fmt4 1 = ''0001''" by code_simp
  have "\<not> save_stream (RealSenseViewer ''231400041-03'' (1 / 20) [''0001''] {})"
    by (simp add: RealSenseViewer_def)
  moreover have "fmt4 (stream_id (RealSenseViewer ''231400041-03'' (1 / 20) [''0001''] {}) + 1)
      \<in> set (dirs (RealSenseViewer ''231400041-03'' (1 / 20) [''0001''] {}))
    \<or> fmt4 (stream_id (RealSenseViewer ''231400041-03'' (1 / 20) [''0001''] {}) + 1)
      \<in> unwritable (RealSenseViewer ''231400041-03'' (1 / 20) [''0001''] {})"
    by (simp add: RealSenseViewer_def f)
  ultimately show ?thesis
    using directory_failure_is_fatal [of "RealSenseViewer ''231400041-03'' (1 / 20) [''0001''] {}"
        "[Frame (Captured 1), press CHR ''s'']"]
    by (simp add: RealSenseViewer_def f)
qed

section \<open>Bilateral filter sigmas\<close>

lemma lit_0_01_value: "lit_0_01 = 5764607523034235 / 576460752303423488"
  by code_simp

lemma float_lit_0_01_value: "to_float lit_0_01 = 5368709 / 536870912"
  by code_simp

lemma float_lit_0_01_less: "to_float lit_0_01 < lit_0_01"
  by (simp only: float_lit_0_01_value) (simp add: lit_0_01_value)

lemma key_a_floor: "k = CHR ''a'' \<or> k = CHR ''A'' \<Longrightarrow> 1 \<le> sigma_s (key_a k st)"
  by (auto simp: key_a_def Let_def)

lemma key_z_floor: "k = CHR ''z'' \<or> k = CHR ''Z'' \<Longrightarrow> to_float lit_0_01 \<le> sigma_r (key_z k st)"
  using float_lit_0_01_less by (auto simp: key_z_def Let_def)

lemma steps_sigma_s:
  assumes "set ks \<subseteq> {CHR ''a'', CHR ''A''}" and "1 \<le> sigma_s st"
  shows "halted (steps (map press ks) st) = None \<and> 1 \<le> sigma_s (final (steps (map press ks) st))"
  using assms
proof (induction ks arbitrary: st)
  case Nil
  then show ?case by simp
next
  case (Cons k ks)
  then have k: "k = CHR ''a'' \<or> k = CHR ''A''" by auto
  then have "steps (map press (k # ks)) st = steps (map press ks) (key_a k st)"
    by (simp add: keyboardCallback_a)
  moreover from Cons.prems have "set ks \<subseteq> {CHR ''a'', CHR ''A''}" by simp
  ultimately show ?case using Cons.IH [of "key_a k st"] key_a_floor [OF k, of st] by simp
qed

lemma steps_sigma_r:
  assumes "set ks \<subseteq> {CHR ''z'', CHR ''Z''}" and "to_float lit_0_01 \<le> sigma_r st"
  shows "halted (steps (map press ks) st) = None
    \<and> to_float lit_0_01 \<le> sigma_r (final (steps (map press ks) st))"
  using assms
proof (induction ks arbitrary: st)
  case Nil
  then show ?case by simp
next
  case (Cons k ks)
  then have k: "k = CHR ''z'' \<or> k = CHR ''Z''" by auto
  then have "steps (map press (k # ks)) st = steps (map press ks) (key_z k st)"
    by (simp add: keyboardCallback_z)
  moreover from Cons.prems have "set ks \<subseteq> {CHR ''z'', CHR ''Z''}" by simp
  ultimately show ?case using Cons.IH [of "key_z k st"] key_z_floor [OF k, of st] by simp
qed

text \<open>
  C7, as the claim states it, fails for the range sigma. The member is a \<^verbatim>\<open>float\<close>, and the
  floor the handler stores is the literal 0.01 converted to \<^verbatim>\<open>float\<close>, which is less than
  0.01. With the range sigma 0.05 (as a \<^verbatim>\<open>float\<close>) the filter starts with, four presses of
  Z leave a range sigma below 0.01.
\<close>

theorem range_sigma_counterexample:
  "sigma_r (final (steps (map press ''ZZZZ'')
      (RealSenseViewer ''231400041-03'' (to_float (1 / 20)) [] {}))) < 1 / 100"
  by code_simp

text \<open>
  C7, amended. After every press of a sequence of a and A presses the spatial sigma is at
  least 1. After every press of a sequence of z and Z presses the range sigma is at least
  the \<^verbatim>\<open>float\<close> nearest to 0.01, which is 5368709 / 536870912, a little less than 0.01.
  Both hold whatever the state before the first press.
\<close>

theorem sigma_floors:
  assumes "ks \<noteq> []" and "set ks \<subseteq> {CHR ''a'', CHR ''A''}"
    and "ls \<noteq> []" and "set ls \<subseteq> {CHR ''z'', CHR ''Z''}"
  shows "halted (steps (map press ks) st) = None
    \<and> 1 \<le> sigma_s (final (steps (map press ks) st))
    \<and> halted (steps (map press ls) st) = None
    \<and> 5368709 / 536870912 \<le> sigma_r (final (steps (map press ls) st))"
proof -
  from assms(1,2) obtain k ks' where ks: "ks = k # ks'" "k = CHR ''a'' \<or> k = CHR ''A''"
    "set ks' \<subseteq> {CHR ''a'', CHR ''A''}"
    by (cases ks) auto
  then have "steps (map press ks) st = steps (map press ks') (key_a k st)"
    by (simp add: keyboardCallback_a)
  with steps_sigma_s [OF ks(3), of "key_a k st"] key_a_floor [OF ks(2), of st]
  have a: "halted (steps (map press ks) st) = None \<and> 1 \<le> sigma_s (final (steps (map press ks) st))"
    by simp
  from assms(3,4) obtain l ls' where ls: "ls = l # ls'" "l = CHR ''z'' \<or> l = CHR ''Z''"
    "set ls' \<subseteq> {CHR ''z'', CHR ''Z''}"
    by (cases ls) auto
  then have "steps (map press ls) st = steps (map press ls') (key_z l st)"
    by (simp add: keyboardCallback_z)
  with steps_sigma_r [OF ls(3), of "key_z l st"] key_z_floor [OF ls(2), of st]
  have "halted (steps (map press ls) st) = None
    \<and> to_float lit_0_01 \<le> sigma_r (final (steps (map press ls) st))"
    by simp
  with a show ?thesis by (simp add: float_lit_0_01_value)
qed

theorem sigma_floors_witness:
  "sigma_s (final (steps (map press ''AAAAAAa'')
      (RealSenseViewer ''231400041-03'' (to_float (1 / 20)) [] {}))) = 2
   \<and> sigma_r (final (steps (map press ''ZZZZZ'')
      (RealSenseViewer ''231400041-03'' (to_float (1 / 20)) [] {}))) = 5368709 / 536870912
   \<and> 1 \<le> sigma_s (final (steps (map press ''AAAAAAa'')
      (RealSenseViewer ''231400041-03'' (to_float (1 / 20)) [] {})))
   \<and> 5368709 / 536870912 \<le> sigma_r (final (steps (map press ''ZZZZZ'')
      (RealSenseViewer ''231400041-03'' (to_float (1 / 20)) [] {})))"
proof -
  have 1: "sigma_s (final (steps (map press ''AAAAAAa'')
      (RealSenseViewer ''231400041-03'' (to_float (1 / 20)) [] {}))) = 2"
    by code_simp
  have 2: "sigma_r (final (steps (map press ''ZZZZZ'')
      (RealSenseViewer ''231400041-03'' (to_float (1 / 20)) [] {}))) = 5368709 / 536870912"
    by code_simp
  have "''AAAAAAa'' \<noteq> []" "set ''AAAAAAa'' \<subseteq> {CHR ''a'', CHR ''A''}"
    "''ZZZZZ'' \<noteq> []" "set ''ZZZZZ'' \<subseteq> {CHR ''z'', CHR ''Z''}"
    by simp_all
  from sigma_floors [OF this, of "RealSenseViewer ''231400041-03'' (to_float (1 / 20)) [] {}"] 1 2
  show ?thesis by simp
qed

section \<open>Recording\<close>

subsection \<open>Counters\<close>

lemma sint_add_of_nat:
  fixes a :: int32
  assumes "sint a + int i < 2147483648"
  shows "sint (a + of_nat i) = sint a + int i"
proof -
  have "a + of_nat i = word_of_int (sint a + int i)" by simp
  then have "sint (a + of_nat i) = signed_take_bit 31 (sint a + int i)"
    by (simp only: sint_sbintrunc') simp
  moreover have "- (2 ^ 31) \<le> sint a + int i"
    using sint_ge [of a] by simp
  ultimately show ?thesis using assms
    by (simp add: signed_take_bit_int_eq_self)
qed

lemma of_nat_inj32:
  assumes "(of_nat i :: int32) = of_nat j" "i < 4294967296" "j < 4294967296"
  shows "i = j"
proof -
  from assms(1) have "take_bit 32 i = take_bit 32 j"
    by (simp add: word_of_nat_eq_iff)
  with assms(2,3) show ?thesis
    by (simp add: take_bit_nat_eq_self)
qed

subsection \<open>Frames while recording\<close>

lemma cloudCallback_recording:
  assumes "save_stream st" "\<not> stopped st"
  shows "cloudCallback c st =
    st\<lparr>new_cloud := Some (shown st c), written := written st @ [(frame_name st 0, shown st c)],
       frame_id := frame_id st + 1\<rparr>"
  using assms by (simp add: cloudCallback_def savePointCloud_def Let_def frame_name_def shown_def)

lemma frame_name_inj:
  assumes "frame_name st i = frame_name st j" "i < 4294967296" "j < 4294967296"
  shows "i = j"
proof -
  from assms(1) have "fmt4 (frame_id st + of_nat i) = fmt4 (frame_id st + of_nat j)"
    by (simp add: frame_name_def)
  then have "(of_nat i :: int32) = of_nat j"
    by (simp add: fmt4_inj)
  from this assms(2,3) show ?thesis by (rule of_nat_inj32)
qed

subsection \<open>A session with display passes and keys between the frames\<close>

lemma hd_dec_not_R: "0 \<le> n \<Longrightarrow> hd (dec n) \<noteq> CHR ''R''"
proof (induction n rule: dec.induct)
  case (1 n)
  show ?case
  proof (cases "n < 10")
    case True
    with 1 have "digit n \<noteq> CHR ''R''"
      using digit_cases [of n] by (auto simp: digit_def)
    with True show ?thesis by (subst dec.simps) simp
  next
    case False
    with 1 have "hd (dec (n div 10)) \<noteq> CHR ''R''" by simp
    with False show ?thesis by (subst dec.simps) (simp add: dec_not_Nil)
  qed
qed

lemma hd_fmt4: "fmt4 x \<noteq> [] \<and> hd (fmt4 x) \<noteq> CHR ''R''"
proof -
  have s: "show_int i \<noteq> [] \<and> hd (show_int i) \<noteq> CHR ''R''" for i
    using hd_dec_not_R [of i] by (simp add: show_int_def dec_not_Nil)
  show ?thesis
  proof (cases "4 - length (show_int (sint x))")
    case 0
    with s [of "sint x"] show ?thesis by (simp add: fmt4_def setw4_def)
  next
    case (Suc k)
    with s [of "sint x"] show ?thesis by (simp add: fmt4_def setw4_def)
  qed
qed

lemma frame_name_not_manual: "\<not> is_manual (frame_name st i, c)"
proof -
  obtain a r where "fmt4 (stream_id st) = a # r" "a \<noteq> CHR ''R''"
    using hd_fmt4 [of "stream_id st"] by (cases "fmt4 (stream_id st)") auto
  then show ?thesis by (simp add: is_manual_def frame_name_def)
qed

lemma frame_name_cong:
  "stream_id a = stream_id b \<Longrightarrow> frame_id a = frame_id b \<Longrightarrow> frame_name a = frame_name b"
  by (rule ext) (simp add: frame_name_def)

lemma raw_shown: "raw (shown st c) = raw c"
  by (simp add: shown_def)

lemma key_p_in_session:
  assumes "key_p k st = Inr s1"
  shows "save_stream s1 = save_stream st \<and> stopped s1 = stopped st \<and> stream_id s1 = stream_id st
    \<and> frame_id s1 = frame_id st
    \<and> (\<exists>m. written s1 = written st @ m \<and> filter (\<lambda>f. \<not> is_manual f) m = [])"
  using assms
  by (auto simp: key_p_def Let_def is_manual_def split: if_splits option.splits)

lemma key_in_session:
  assumes "keyboardCallback ev st = Inr s1" "ev \<noteq> KeyboardEvent True CHR ''s''"
  shows "save_stream s1 = save_stream st \<and> stopped s1 = stopped st \<and> stream_id s1 = stream_id st
    \<and> frame_id s1 = frame_id st
    \<and> (\<exists>m. written s1 = written st @ m \<and> filter (\<lambda>f. \<not> is_manual f) m = [])"
proof (rule keyboardCallback_cases [of ev st])
  assume "keyDown ev" "getKeyCode ev = CHR ''s''"
  then have "ev = KeyboardEvent True CHR ''s''" by (cases ev) simp
  with assms(2) show ?thesis by simp
next
  assume "keyboardCallback ev st = key_p CHR ''p'' st"
  with assms(1) have "key_p CHR ''p'' st = Inr s1" by simp
  then show ?thesis by (rule key_p_in_session)
qed (use assms(1) in auto)

lemma session_steps:
  assumes "save_stream st" "\<not> stopped st" "Close \<notin> set evs" "press CHR ''s'' \<notin> set evs"
    and "steps evs st = Inr st'"
  shows "\<exists>new. written st' = written st @ new
    \<and> map fst (filter (\<lambda>f. \<not> is_manual f) new) = map (frame_name st) [0..<length (delivered evs)]
    \<and> map (raw \<circ> snd) (filter (\<lambda>f. \<not> is_manual f) new) = map raw (delivered evs)
    \<and> frame_id st' = frame_id st + of_nat (length (delivered evs))"
  using assms
proof (induction evs arbitrary: st)
  case Nil
  then show ?case by simp
next
  case (Cons e evs)
  from Cons.prems(5) obtain s1 where s1: "step e st = Inr s1" "steps evs s1 = Inr st'"
    by (auto split: sum.splits)
  from Cons.prems(3,4) have rest: "Close \<notin> set evs" "press CHR ''s'' \<notin> set evs"
    and e: "e \<noteq> Close" "e \<noteq> press CHR ''s''"
    by auto
  show ?case
  proof (cases e)
    case (Frame c)
    with s1(1) Cons.prems(1,2) have c: "s1 = st\<lparr>new_cloud := Some (shown st c),
        written := written st @ [(frame_name st 0, shown st c)], frame_id := frame_id st + 1\<rparr>"
      by (simp add: cloudCallback_recording)
    with Cons.prems(1,2) have "save_stream s1" "\<not> stopped s1" by simp_all
    from Cons.IH [OF this rest s1(2)] obtain new where new: "written st' = written s1 @ new"
      "map fst (filter (\<lambda>f. \<not> is_manual f) new) = map (frame_name s1) [0..<length (delivered evs)]"
      "map (raw \<circ> snd) (filter (\<lambda>f. \<not> is_manual f) new) = map raw (delivered evs)"
      "frame_id st' = frame_id s1 + of_nat (length (delivered evs))"
      by blast
    have n: "frame_name s1 i = frame_name st (Suc i)" for i
      by (simp add: c frame_name_def add.assoc)
    have "map (frame_name st) [0..<Suc (length (delivered evs))]
        = frame_name st 0 # map (\<lambda>i. frame_name st (Suc i)) [0..<length (delivered evs)]"
      by (simp add: upt_conv_Cons del: upt_Suc flip: map_Suc_upt)
    then have u: "map (frame_name st) [0..<length (delivered (e # evs))]
        = frame_name st 0 # map (frame_name s1) [0..<length (delivered evs)]"
      by (simp only: Frame delivered.simps length_Cons n [symmetric])
    let ?new = "(frame_name st 0, shown st c) # new"
    have "written st' = written st @ ?new" using new(1) by (simp add: c)
    moreover have "map fst (filter (\<lambda>f. \<not> is_manual f) ?new)
        = map (frame_name st) [0..<length (delivered (e # evs))]"
      unfolding u using new(2) by (simp add: frame_name_not_manual)
    moreover have "map (raw \<circ> snd) (filter (\<lambda>f. \<not> is_manual f) ?new) = map raw (delivered (e # evs))"
      using new(3) by (simp add: Frame frame_name_not_manual raw_shown)
    moreover have "frame_id st' = frame_id st + of_nat (length (delivered (e # evs)))"
      using new(4) by (simp add: Frame c add.assoc)
    ultimately show ?thesis by blast
  next
    case (Key ev)
    with s1(1) e(2) have "keyboardCallback ev st = Inr s1" "ev \<noteq> KeyboardEvent True CHR ''s''"
      by auto
    from key_in_session [OF this] obtain m where k: "save_stream s1 = save_stream st"
      "stopped s1 = stopped st" "stream_id s1 = stream_id st" "frame_id s1 = frame_id st"
      "written s1 = written st @ m" "filter (\<lambda>f. \<not> is_manual f) m = []"
      by blast
    with Cons.prems(1,2) have "save_stream s1" "\<not> stopped s1" by simp_all
    from Cons.IH [OF this rest s1(2)] obtain new where new: "written st' = written s1 @ new"
      "map fst (filter (\<lambda>f. \<not> is_manual f) new) = map (frame_name s1) [0..<length (delivered evs)]"
      "map (raw \<circ> snd) (filter (\<lambda>f. \<not> is_manual f) new) = map raw (delivered evs)"
      "frame_id st' = frame_id s1 + of_nat (length (delivered evs))"
      by blast
    have n: "frame_name s1 = frame_name st" using k(3,4) by (rule frame_name_cong)
    have "written st' = written st @ (m @ new)" using new(1) k(5) by simp
    moreover have "map fst (filter (\<lambda>f. \<not> is_manual f) (m @ new))
        = map (frame_name st) [0..<length (delivered (e # evs))]"
      using new(2) k(6) by (simp add: Key n)
    moreover have "map (raw \<circ> snd) (filter (\<lambda>f. \<not> is_manual f) (m @ new)) = map raw (delivered (e # evs))"
      using new(3) k(6) by (simp add: Key)
    moreover have "frame_id st' = frame_id st + of_nat (length (delivered (e # evs)))"
      using new(4) k(4) by (simp add: Key)
    ultimately show ?thesis by blast
  next
    case Refresh
    with s1(1) have r: "s1 = refresh st" by simp
    with Cons.prems(1,2) have "save_stream s1" "\<not> stopped s1" by simp_all
    from Cons.IH [OF this rest s1(2)] obtain new where new: "written st' = written s1 @ new"
      "map fst (filter (\<lambda>f. \<not> is_manual f) new) = map (frame_name s1) [0..<length (delivered evs)]"
      "map (raw \<circ> snd) (filter (\<lambda>f. \<not> is_manual f) new) = map raw (delivered evs)"
      "frame_id st' = frame_id s1 + of_nat (length (delivered evs))"
      by blast
    have n: "frame_name s1 = frame_name st" by (rule frame_name_cong) (simp_all add: r)
    have "written st' = written st @ new" using new(1) by (simp add: r)
    moreover have "map fst (filter (\<lambda>f. \<not> is_manual f) new)
        = map (frame_name st) [0..<length (delivered (e # evs))]"
      using new(2) by (simp add: Refresh n)
    moreover have "map (raw \<circ> snd) (filter (\<lambda>f. \<not> is_manual f) new) = map raw (delivered (e # evs))"
      using new(3) by (simp add: Refresh)
    moreover have "frame_id st' = frame_id st + of_nat (length (delivered (e # evs)))"
      using new(4) by (simp add: Refresh r)
    ultimately show ?thesis by blast
  next
    case Close
    with e(1) show ?thesis by simp
  qed
qed

text \<open>
  C4, as the claim states it, fails: the cloud callback does nothing once the viewer has
  been stopped, also while recording is on. A frame delivered then is not saved.
\<close>

theorem frame_after_stop_counterexample:
  "save_stream (final (steps [press CHR ''s'', Close] (RealSenseViewer ''231400041-03'' (1 / 20) [] {})))
   \<and> halted (steps [press CHR ''s'', Close, Frame (Captured 1)]
        (RealSenseViewer ''231400041-03'' (1 / 20) [] {})) = None
   \<and> written (final (steps [press CHR ''s'', Close, Frame (Captured 1)]
        (RealSenseViewer ''231400041-03'' (1 / 20) [] {}))) = []"
proof -
  have "fmt4 1 = ''0001''" by code_simp
  then show ?thesis
    by (simp add: keyboardCallback_s key_s_def createStreamDirectory_def CreateDirectory_def
        cloudCallback_def RealSenseViewer_def)
qed

text \<open>
  C4, amended. While recording is on and the viewer has not been stopped, every delivered
  frame is saved as one file, whatever display passes and key presses other than s come
  between the frames. Over such a stretch of a session the files the recorder adds are, in
  order, one for each delivered frame, holding that frame (filtered or not), the file of
  the \<open>i\<close>-th frame named after the session directory and the frame counter plus \<open>i\<close>;
  files saved with p have names of their own and do not move the counter, which ends
  higher by the number of frames. While the 32-bit counter does not pass 2147483647 the
  indices are the consecutive integers from the counter's value on, so strictly increasing
  with no gap, and up to 4294967296 frames the file names are all different.
\<close>

theorem recording_saves_each_frame:
  assumes "save_stream st" and "\<not> stopped st"
    and "Close \<notin> set evs" and "press CHR ''s'' \<notin> set evs"
    and "steps evs st = Inr st'"
  shows "written st' = written st @ drop (length (written st)) (written st')
    \<and> map fst (session_files st st') = map (frame_name st) [0..<length (delivered evs)]
    \<and> map (raw \<circ> snd) (session_files st st') = map raw (delivered evs)
    \<and> frame_id st' = frame_id st + of_nat (length (delivered evs))
    \<and> (sint (frame_id st) + int (length (delivered evs)) \<le> 2147483648 \<longrightarrow>
         (\<forall>i<length (delivered evs). sint (frame_id st + of_nat i) = sint (frame_id st) + int i))
    \<and> (length (delivered evs) \<le> 4294967296 \<longrightarrow>
         distinct (map (frame_name st) [0..<length (delivered evs)]))"
proof -
  from session_steps [OF assms] obtain new where new: "written st' = written st @ new"
    "map fst (filter (\<lambda>f. \<not> is_manual f) new) = map (frame_name st) [0..<length (delivered evs)]"
    "map (raw \<circ> snd) (filter (\<lambda>f. \<not> is_manual f) new) = map raw (delivered evs)"
    "frame_id st' = frame_id st + of_nat (length (delivered evs))"
    by blast
  from new(1) have d: "drop (length (written st)) (written st') = new" by simp
  have "sint (frame_id st + of_nat i) = sint (frame_id st) + int i"
    if "sint (frame_id st) + int (length (delivered evs)) \<le> 2147483648" "i < length (delivered evs)" for i
    using that by (intro sint_add_of_nat) simp
  moreover have "distinct (map (frame_name st) [0..<length (delivered evs)])"
    if "length (delivered evs) \<le> 4294967296"
  proof -
    have "inj_on (frame_name st) (set [0..<length (delivered evs)])"
      using that by (auto intro!: inj_onI frame_name_inj)
    then show ?thesis by (simp add: distinct_map)
  qed
  ultimately show ?thesis using new by (simp add: session_files_def d)
qed

theorem recording_saves_each_frame_witness:
  "map fst (session_files
      (final (steps [press CHR ''s''] (RealSenseViewer ''231400041-03'' (1 / 20) [] {})))
      (final (steps [Frame (Captured 10), Refresh, press CHR ''p'', press CHR ''b'', Frame (Captured 20),
                     Refresh, press CHR ''t'', Frame (Captured 30)]
         (final (steps [press CHR ''s''] (RealSenseViewer ''231400041-03'' (1 / 20) [] {}))))))
     = [''0001/0001.pcd'', ''0001/0002.pcd'', ''0001/0003.pcd'']
   \<and> written
      (final (steps [Frame (Captured 10), Refresh, press CHR ''p'', press CHR ''b'', Frame (Captured 20),
                     Refresh, press CHR ''t'', Frame (Captured 30)]
         (final (steps [press CHR ''s''] (RealSenseViewer ''231400041-03'' (1 / 20) [] {})))))
     = [(''0001/0001.pcd'', Captured 10), (''RS_231400041-03_10.pcd'', Captured 10),
        (''0001/0002.pcd'', Filtered 5 (1 / 20) (Captured 20)),
        (''0001/0003.pcd'', Filtered 5 (1 / 20) (Captured 30))]"
proof -
  have f: "fmt4 1 = ''0001''" "fmt4 2 = ''0002''" "fmt4 3 = ''0003''" "dec 10 = ''10''"
    by code_simp+
  define st where "st = final (steps [press CHR ''s''] (RealSenseViewer ''231400041-03'' (1 / 20) [] {}))"
  define evs where "evs = [Frame (Captured 10), Refresh, press CHR ''p'', press CHR ''b'',
    Frame (Captured 20), Refresh, press CHR ''t'', Frame (Captured 30)]"
  have st: "st = (RealSenseViewer ''231400041-03'' (1 / 20) [] {})
      \<lparr>save_stream := True, stream_id := 1, frame_id := 1, dirs := [''0001''], attempts := [''0001'']\<rparr>"
    by (simp add: st_def keyboardCallback_s key_s_def createStreamDirectory_def CreateDirectory_def
        RealSenseViewer_def f)
  have w: "written (final (steps evs st))
     = [(''0001/0001.pcd'', Captured 10), (''RS_231400041-03_10.pcd'', Captured 10),
        (''0001/0002.pcd'', Filtered 5 (1 / 20) (Captured 20)),
        (''0001/0003.pcd'', Filtered 5 (1 / 20) (Captured 30))]"
    and r: "steps evs st = Inr (final (steps evs st))"
    by (simp_all add: evs_def st keyboardCallback_p keyboardCallback_b keyboardCallback_t
        key_p_def key_b_def key_t_def cloudCallback_def savePointCloud_def refresh_def
        RealSenseViewer_def Let_def f)
  have "save_stream st" "\<not> stopped st" "Close \<notin> set evs" "press CHR ''s'' \<notin> set evs"
    by (simp_all add: st evs_def RealSenseViewer_def)
  from recording_saves_each_frame [OF this r]
  have "map fst (session_files st (final (steps evs st)))
      = map (frame_name st) [0..<length (delivered evs)]"
    by blast
  also have "\<dots> = [''0001/0001.pcd'', ''0001/0002.pcd'', ''0001/0003.pcd'']"
    by (simp add: evs_def st frame_name_def RealSenseViewer_def f)
  finally show ?thesis using w unfolding st_def evs_def by simp
qed

subsection \<open>Sessions\<close>

lemma fmt4_small: "fmt4 1 = ''0001''" "fmt4 2 = ''0002''" "fmt4 3 = ''0003''"
  by code_simp+

lemma reachable_idle:
  assumes "steps evs (RealSenseViewer sn r0 ds uw) = Inr st" "\<not> save_stream st"
  shows "frame_id st = 0"
proof -
  have "\<not> save_stream (RealSenseViewer sn r0 ds uw) \<longrightarrow> frame_id (RealSenseViewer sn r0 ds uw) = 0"
    by (simp add: RealSenseViewer_def)
  with assms(1) have "\<not> save_stream st \<longrightarrow> frame_id st = 0"
    by (rule steps_induct_inv) (rule step_idle)
  with assms(2) show ?thesis by simp
qed

text \<open>
  C1, as the claim states it, fails: turning recording on also adds one to the frame
  counter, so the three frames are saved under the indices 1, 2 and 3, and the file names
  end in \<^verbatim>\<open>.pcd\<close>. No file \<^verbatim>\<open>0001/0000\<close> is written.
\<close>

theorem first_session_counterexample:
  "map fst (written (final (steps
       [press CHR ''s'', Frame (Captured 10), Frame (Captured 20), Frame (Captured 30)]
       (RealSenseViewer ''231400041-03'' (1 / 20) [] {}))))
     = [''0001/0001.pcd'', ''0001/0002.pcd'', ''0001/0003.pcd'']
   \<and> ''0001/0000'' \<notin> set (map fst (written (final (steps
       [press CHR ''s'', Frame (Captured 10), Frame (Captured 20), Frame (Captured 30)]
       (RealSenseViewer ''231400041-03'' (1 / 20) [] {})))))
   \<and> ''0001/0000.pcd'' \<notin> set (map fst (written (final (steps
       [press CHR ''s'', Frame (Captured 10), Frame (Captured 20), Frame (Captured 30)]
       (RealSenseViewer ''231400041-03'' (1 / 20) [] {})))))"
  by (simp add: keyboardCallback_s key_s_def createStreamDirectory_def CreateDirectory_def
      cloudCallback_def savePointCloud_def Let_def RealSenseViewer_def fmt4_small)

text \<open>
  C1, amended. From the state the constructor sets up, in a working directory where
  \<^verbatim>\<open>0001\<close> can be created: a press of s creates the directory \<^verbatim>\<open>0001\<close> and turns recording
  on; the next three frames are saved as \<^verbatim>\<open>0001/0001.pcd\<close>, \<^verbatim>\<open>0001/0002.pcd\<close> and
  \<^verbatim>\<open>0001/0003.pcd\<close>; a second press of s turns recording off and sets the frame counter to 0.
\<close>

theorem first_session:
  assumes "''0001'' \<notin> set ds" and "''0001'' \<notin> uw"
  shows "halted (steps [press CHR ''s''] (RealSenseViewer sn r0 ds uw)) = None
    \<and> dirs (final (steps [press CHR ''s''] (RealSenseViewer sn r0 ds uw))) = ds @ [''0001'']
    \<and> save_stream (final (steps [press CHR ''s''] (RealSenseViewer sn r0 ds uw)))
    \<and> halted (steps [press CHR ''s'', Frame a, Frame b, Frame c] (RealSenseViewer sn r0 ds uw)) = None
    \<and> written (final (steps [press CHR ''s'', Frame a, Frame b, Frame c] (RealSenseViewer sn r0 ds uw)))
        = [(''0001/0001.pcd'', a), (''0001/0002.pcd'', b), (''0001/0003.pcd'', c)]
    \<and> halted (steps [press CHR ''s'', Frame a, Frame b, Frame c, press CHR ''s'']
          (RealSenseViewer sn r0 ds uw)) = None
    \<and> \<not> save_stream (final (steps [press CHR ''s'', Frame a, Frame b, Frame c, press CHR ''s'']
          (RealSenseViewer sn r0 ds uw)))
    \<and> frame_id (final (steps [press CHR ''s'', Frame a, Frame b, Frame c, press CHR ''s'']
          (RealSenseViewer sn r0 ds uw))) = 0
    \<and> written (final (steps [press CHR ''s'', Frame a, Frame b, Frame c, press CHR ''s'']
          (RealSenseViewer sn r0 ds uw)))
        = [(''0001/0001.pcd'', a), (''0001/0002.pcd'', b), (''0001/0003.pcd'', c)]
    \<and> dirs (final (steps [press CHR ''s'', Frame a, Frame b, Frame c, press CHR ''s'']
          (RealSenseViewer sn r0 ds uw))) = ds @ [''0001'']"
  using assms
  by (simp add: keyboardCallback_s key_s_def createStreamDirectory_def CreateDirectory_def
      cloudCallback_def savePointCloud_def Let_def RealSenseViewer_def fmt4_small)

theorem first_session_witness:
  "dirs (final (steps [press CHR ''s''] (RealSenseViewer ''231400041-03'' (1 / 20) [''old''] {''0002''})))
     = [''old'', ''0001'']
   \<and> written (final (steps
       [press CHR ''s'', Frame (Captured 10), Frame (Captured 20), Frame (Captured 30), press CHR ''s'']
       (RealSenseViewer ''231400041-03'' (1 / 20) [''old''] {''0002''})))
     = [(''0001/0001.pcd'', Captured 10), (''0001/0002.pcd'', Captured 20), (''0001/0003.pcd'', Captured 30)]
   \<and> frame_id (final (steps
       [press CHR ''s'', Frame (Captured 10), Frame (Captured 20), Frame (Captured 30), press CHR ''s'']
       (RealSenseViewer ''231400041-03'' (1 / 20) [''old''] {''0002''}))) = 0"
proof -
  have "''0001'' \<notin> set [''old'']" "''0001'' \<notin> {''0002''}" by simp_all
  from first_session [OF this] show ?thesis by simp
qed

text \<open>
  C2, as the claim states it, fails: in each session the first file has the index 1, not 0.
\<close>

theorem two_sessions_counterexample:
  "frame_id (final (steps [press CHR ''s''] (RealSenseViewer ''231400041-03'' (1 / 20) [] {}))) = 1
   \<and> frame_id (final (steps [press CHR ''s'', press CHR ''s'', press CHR ''s'']
        (RealSenseViewer ''231400041-03'' (1 / 20) [] {}))) = 1
   \<and> map fst (written (final (steps
        [press CHR ''s'', Frame (Captured 10), press CHR ''s'', press CHR ''s'', Frame (Captured 20)]
        (RealSenseViewer ''231400041-03'' (1 / 20) [] {}))))
     = [''0001/0001.pcd'', ''0002/0001.pcd'']"
  by (simp add: keyboardCallback_s key_s_def createStreamDirectory_def CreateDirectory_def
      cloudCallback_def savePointCloud_def Let_def RealSenseViewer_def fmt4_small)

text \<open>
  C2, amended. In any state the viewer can reach with recording off and the viewer not
  stopped, if the next two session directories can be created: turning recording on, off
  and on again creates two directories with different names, and in each session the
  frame counter starts at 1, so the first file of each session is \<^verbatim>\<open>0001.pcd\<close> in its
  directory.
\<close>

theorem two_sessions:
  assumes "steps evs (RealSenseViewer sn r0 ds uw) = Inr st"
    and "\<not> save_stream st" and "\<not> stopped st"
    and "fmt4 (stream_id st + 1) \<notin> set (dirs st) \<union> unwritable st"
    and "fmt4 (stream_id st + 2) \<notin> set (dirs st) \<union> unwritable st"
  shows "fmt4 (stream_id st + 1) \<noteq> fmt4 (stream_id st + 2)
    \<and> halted (steps [press CHR ''s'', Frame a, press CHR ''s'', press CHR ''s'', Frame b] st) = None
    \<and> dirs (final (steps [press CHR ''s'', Frame a, press CHR ''s'', press CHR ''s'', Frame b] st))
        = dirs st @ [fmt4 (stream_id st + 1), fmt4 (stream_id st + 2)]
    \<and> map fst (written (final (steps [press CHR ''s'', Frame a, press CHR ''s'', press CHR ''s'', Frame b] st)))
        = map fst (written st)
          @ [fmt4 (stream_id st + 1) @ ''/0001.pcd'', fmt4 (stream_id st + 2) @ ''/0001.pcd'']
    \<and> frame_id (final (steps [press CHR ''s''] st)) = 1
    \<and> frame_id (final (steps [press CHR ''s'', press CHR ''s''] st)) = 0
    \<and> frame_id (final (steps [press CHR ''s'', press CHR ''s'', press CHR ''s''] st)) = 1"
proof -
  from assms(1,2) have f0: "frame_id st = 0" by (rule reachable_idle)
  have ne: "fmt4 (stream_id st + 1) \<noteq> fmt4 (stream_id st + 2)"
    by (simp add: fmt4_inj)
  have two: "stream_id st + 1 + 1 = stream_id st + 2" by simp
  from assms(2-5) f0 ne show ?thesis
    by (simp add: keyboardCallback_s key_s_def createStreamDirectory_def CreateDirectory_def
        cloudCallback_def savePointCloud_def Let_def two fmt4_small)
qed

theorem two_sessions_witness:
  "dirs (final (steps [press CHR ''s'', Frame (Captured 10), press CHR ''s'', press CHR ''s'', Frame (Captured 20)]
      (final (steps [press CHR ''s'', Frame (Captured 5), press CHR ''s'']
        (RealSenseViewer ''231400041-03'' (1 / 20) [] {})))))
     = [''0001'', ''0002'', ''0003'']
   \<and> map fst (written (final (steps [press CHR ''s'', Frame (Captured 10), press CHR ''s'', press CHR ''s'', Frame (Captured 20)]
      (final (steps [press CHR ''s'', Frame (Captured 5), press CHR ''s'']
        (RealSenseViewer ''231400041-03'' (1 / 20) [] {}))))))
     = [''0001/0001.pcd'', ''0002/0001.pcd'', ''0003/0001.pcd'']"
proof -
  define st where "st = final (steps [press CHR ''s'', Frame (Captured 5), press CHR ''s'']
        (RealSenseViewer ''231400041-03'' (1 / 20) [] {}))"
  have st: "st = (RealSenseViewer ''231400041-03'' (1 / 20) [] {})
      \<lparr>stream_id := 1, new_cloud := Some (Captured 5), dirs := [''0001''], attempts := [''0001''],
       written := [(''0001/0001.pcd'', Captured 5)]\<rparr>"
    by (simp add: st_def keyboardCallback_s key_s_def createStreamDirectory_def CreateDirectory_def
        cloudCallback_def savePointCloud_def Let_def RealSenseViewer_def fmt4_small)
  have "steps [press CHR ''s'', Frame (Captured 5), press CHR ''s'']
        (RealSenseViewer ''231400041-03'' (1 / 20) [] {}) = Inr st"
    by (simp add: st_def keyboardCallback_s key_s_def createStreamDirectory_def CreateDirectory_def
        cloudCallback_def savePointCloud_def Let_def RealSenseViewer_def fmt4_small)
  moreover have "\<not> save_stream st" "\<not> stopped st"
    "fmt4 (stream_id st + 1) \<notin> set (dirs st) \<union> unwritable st"
    "fmt4 (stream_id st + 2) \<notin> set (dirs st) \<union> unwritable st"
    by (simp_all add: st RealSenseViewer_def fmt4_small)
  ultimately have "dirs (final (steps [press CHR ''s'', Frame (Captured 10), press CHR ''s'', press CHR ''s'', Frame (Captured 20)] st))
        = dirs st @ [fmt4 (stream_id st + 1), fmt4 (stream_id st + 2)]
    \<and> map fst (written (final (steps [press CHR ''s'', Frame (Captured 10), press CHR ''s'', press CHR ''s'', Frame (Captured 20)] st)))
        = map fst (written st)
          @ [fmt4 (stream_id st + 1) @ ''/0001.pcd'', fmt4 (stream_id st + 2) @ ''/0001.pcd'']"
    using two_sessions [of "[press CHR ''s'', Frame (Captured 5), press CHR ''s'']"
        "''231400041-03''" "1 / 20" "[]" "{}" st "Captured 10" "Captured 20"]
    by blast
  then show ?thesis
    unfolding st_def [symmetric] by (simp add: st RealSenseViewer_def fmt4_small)
qed

section \<open>Exit codes\<close>

lemma createStreamDirectory_halt:
  assumes "createStreamDirectory st = Inl (h, st')"
  shows "h = Exit (- 1) \<and> err st' = err st @ [''Error creating save directory.'']"
  using assms
  by (auto simp: createStreamDirectory_def CreateDirectory_def Let_def split: if_splits)

lemma step_halt:
  assumes "step e st = Inl (h, st')"
  shows "h = NullPointer \<or> (h = Exit (- 1) \<and> last (err st') = ''Error creating save directory.'')"
proof (cases e)
  case (Key ev)
  with assms have kc: "keyboardCallback ev st = Inl (h, st')" by simp
  show ?thesis
  proof (rule keyboardCallback_cases [of ev st])
    assume "keyboardCallback ev st = key_p CHR ''p'' st"
    with kc show ?thesis by (auto simp: key_p_def split: option.splits)
  next
    assume "keyboardCallback ev st = key_s CHR ''s'' st"
    with kc show ?thesis
      by (auto simp: key_s_def Let_def dest: createStreamDirectory_halt split: if_splits)
  qed (use kc in simp_all)
qed (use assms in simp_all)

lemma run_halt:
  assumes "run evs st = Some (Inl (h, st'))"
  shows "h = NullPointer \<or> (h = Exit (- 1) \<and> last (err st') = ''Error creating save directory.'')"
  using assms
proof (induction evs arbitrary: st)
  case Nil
  then show ?case by (simp split: if_splits)
next
  case (Cons e evs)
  show ?case
  proof (cases "step e st")
    case (Inl x)
    with Cons.prems have "step e st = Inl (h, st')" by (simp split: if_splits)
    then show ?thesis by (rule step_halt)
  next
    case (Inr s1)
    with Cons.prems have "run evs s1 = Some (Inl (h, st'))" by (simp split: if_splits)
    then show ?thesis by (rule Cons.IH)
  qed
qed

lemma step_Close: "step Close st = Inr (st\<lparr>stopped := True\<rparr>)"
  by simp

lemma run_stopped: "stopped st \<Longrightarrow> run evs st = Some (Inr st)"
  by (cases evs) simp_all

lemma run_ends:
  assumes "Close \<in> set evs"
  shows "run evs st \<noteq> None"
  using assms
proof (induction evs arbitrary: st)
  case Nil
  then show ?case by simp
next
  case (Cons e evs)
  show ?case
  proof (cases "stopped st")
    case True
    then show ?thesis by (simp add: run_stopped)
  next
    case False
    show ?thesis
    proof (cases "step e st")
      case (Inl x)
      with False show ?thesis by simp
    next
      case (Inr s1)
      show ?thesis
      proof (cases "e = Close")
        case True
        with Inr have "stopped s1" by auto
        with Inr False show ?thesis by (simp add: run_stopped)
      next
        case ne: False
        with Cons.prems have "Close \<in> set evs" by simp
        then have "run evs s1 \<noteq> None" by (rule Cons.IH)
        with Inr False show ?thesis by simp
      qed
    qed
  qed
qed

subsection \<open>Which runs end how\<close>

lemma key_s_exit:
  "(\<exists>c st'. key_s CHR ''s'' st = Inl (Exit c, st')) \<longleftrightarrow> \<not> save_stream st \<and> cannot_create st"
  by (auto simp: key_s_def createStreamDirectory_def CreateDirectory_def cannot_create_def Let_def
      split: if_splits)

lemma step_exit:
  assumes "step e st = Inl (Exit c, st')"
  shows "e = press CHR ''s'' \<and> \<not> save_stream st \<and> cannot_create st"
proof (cases e)
  case (Key ev)
  with assms have kc: "keyboardCallback ev st = Inl (Exit c, st')" by simp
  show ?thesis
  proof (rule keyboardCallback_cases [of ev st])
    assume "keyboardCallback ev st = key_p CHR ''p'' st"
    with kc show ?thesis by (auto simp: key_p_def split: option.splits)
  next
    assume s: "keyDown ev" "getKeyCode ev = CHR ''s''" "keyboardCallback ev st = key_s CHR ''s'' st"
    then have "ev = KeyboardEvent True CHR ''s''" by (cases ev) simp
    moreover from s(3) kc have "key_s CHR ''s'' st = Inl (Exit c, st')" by simp
    then have "\<exists>c st'. key_s CHR ''s'' st = Inl (Exit c, st')" by blast
    ultimately show ?thesis using Key by (simp add: key_s_exit)
  qed (use kc in simp_all)
qed (use assms in simp_all)

lemma press_s_exit:
  assumes "\<not> save_stream st" "cannot_create st"
  shows "\<exists>st'. step (press CHR ''s'') st = Inl (Exit (- 1), st')"
  using assms
  by (auto simp: keyboardCallback_s key_s_def createStreamDirectory_def CreateDirectory_def
      cannot_create_def Let_def)

lemma run_after:
  assumes "steps pre s = Inr st" "\<not> stopped st"
  shows "run (pre @ rest) s = run rest st"
  using assms
proof (induction pre arbitrary: s)
  case Nil
  then show ?case by simp
next
  case (Cons e pre)
  from Cons.prems(1) obtain s1 where s1: "step e s = Inr s1" "steps pre s1 = Inr st"
    by (auto split: sum.splits)
  have "\<not> stopped s"
  proof
    assume "stopped s"
    with Cons.prems(1) have "stopped st" by (rule steps_stays_stopped)
    with Cons.prems(2) show False by simp
  qed
  with s1 Cons.IH [OF s1(2) Cons.prems(2)] show ?case by simp
qed

lemma run_exit_iff:
  "(\<exists>st'. run evs s = Some (Inl (Exit (- 1), st')))
    \<longleftrightarrow> (\<exists>pre post st. evs = pre @ press CHR ''s'' # post \<and> steps pre s = Inr st
          \<and> \<not> stopped st \<and> \<not> save_stream st \<and> cannot_create st)"
proof
  assume "\<exists>st'. run evs s = Some (Inl (Exit (- 1), st'))"
  then obtain st' where "run evs s = Some (Inl (Exit (- 1), st'))" by blast
  then show "\<exists>pre post st. evs = pre @ press CHR ''s'' # post \<and> steps pre s = Inr st
          \<and> \<not> stopped st \<and> \<not> save_stream st \<and> cannot_create st"
  proof (induction evs arbitrary: s)
    case Nil
    then show ?case by (simp split: if_splits)
  next
    case (Cons e evs)
    then have ns: "\<not> stopped s" by (auto split: if_splits)
    show ?case
    proof (cases "step e s")
      case (Inl x)
      with Cons.prems ns have "step e s = Inl (Exit (- 1), st')" by simp
      then have "e = press CHR ''s'' \<and> \<not> save_stream s \<and> cannot_create s" by (rule step_exit)
      with ns have "e # evs = [] @ press CHR ''s'' # evs \<and> steps [] s = Inr s
          \<and> \<not> stopped s \<and> \<not> save_stream s \<and> cannot_create s"
        by simp
      then show ?thesis by blast
    next
      case (Inr s1)
      with Cons.prems ns have "run evs s1 = Some (Inl (Exit (- 1), st'))" by simp
      from Cons.IH [OF this] obtain pre post st where p: "evs = pre @ press CHR ''s'' # post"
        "steps pre s1 = Inr st" "\<not> stopped st" "\<not> save_stream st" "cannot_create st"
        by blast
      with Inr have "e # evs = (e # pre) @ press CHR ''s'' # post \<and> steps (e # pre) s = Inr st
          \<and> \<not> stopped st \<and> \<not> save_stream st \<and> cannot_create st"
        by simp
      then show ?thesis by blast
    qed
  qed
next
  assume "\<exists>pre post st. evs = pre @ press CHR ''s'' # post \<and> steps pre s = Inr st
          \<and> \<not> stopped st \<and> \<not> save_stream st \<and> cannot_create st"
  then obtain pre post st where p: "evs = pre @ press CHR ''s'' # post" "steps pre s = Inr st"
    "\<not> stopped st" "\<not> save_stream st" "cannot_create st"
    by blast
  from p(4,5) obtain st' where "step (press CHR ''s'') st = Inl (Exit (- 1), st')"
    using press_s_exit by blast
  with p(3) have "run (press CHR ''s'' # post) st = Some (Inl (Exit (- 1), st'))" by simp
  with p(1) run_after [OF p(2,3)] show "\<exists>st'. run evs s = Some (Inl (Exit (- 1), st'))" by simp
qed

lemma run_stop_after:
  assumes "steps pre s = Inr st" "stopped st"
  shows "\<exists>st'. run (pre @ post) s = Some (Inr st')"
  using assms
proof (induction pre arbitrary: s)
  case Nil
  then show ?case by (simp add: run_stopped)
next
  case (Cons e pre)
  show ?case
  proof (cases "stopped s")
    case True
    then show ?thesis by (simp add: run_stopped)
  next
    case False
    from Cons.prems(1) obtain s1 where s1: "step e s = Inr s1" "steps pre s1 = Inr st"
      by (auto split: sum.splits)
    from Cons.IH [OF s1(2) Cons.prems(2)] obtain st' where "run (pre @ post) s1 = Some (Inr st')"
      by blast
    with False s1(1) show ?thesis by simp
  qed
qed

lemma run_stop_before:
  assumes "run evs s = Some (Inr st')"
  shows "\<exists>pre post st. evs = pre @ post \<and> steps pre s = Inr st \<and> stopped st"
  using assms
proof (induction evs arbitrary: s)
  case Nil
  then have "stopped s" by (simp split: if_splits)
  show ?case
    by (rule exI [where x = "[]"], rule exI [where x = "[]"], rule exI [where x = s])
       (use \<open>stopped s\<close> in simp)
next
  case (Cons e evs)
  show ?case
  proof (cases "stopped s")
    case True
    show ?thesis
      by (rule exI [where x = "[]"], rule exI [where x = "e # evs"], rule exI [where x = s])
         (use True in simp)
  next
    case False
    show ?thesis
    proof (cases "step e s")
      case (Inl x)
      with False Cons.prems show ?thesis by simp
    next
      case (Inr s1)
      with False Cons.prems have "run evs s1 = Some (Inr st')" by simp
      from Cons.IH [OF this] obtain pre post st where p: "evs = pre @ post" "steps pre s1 = Inr st"
        "stopped st"
        by blast
      from p(2) Inr have q: "steps (e # pre) s = Inr st" by simp
      show ?thesis
        by (rule exI [where x = "e # pre"], rule exI [where x = post], rule exI [where x = st])
           (use p(1,3) q in simp)
    qed
  qed
qed

lemma run_stop_iff:
  "(\<exists>st'. run evs s = Some (Inr st'))
    \<longleftrightarrow> (\<exists>pre post st. evs = pre @ post \<and> steps pre s = Inr st \<and> stopped st)"
  using run_stop_before [of evs s] run_stop_after [of _ s] by blast

lemma main_info:
  "info_switch (prog # args) \<Longrightarrow> main prog args g r0 ds uw evs = Some (Exit 0)"
  by (auto simp: main_def info_switch_def Let_def)

lemma main_opened:
  assumes "\<not> info_switch (prog # args) \<and> map_of g (device_id (prog # args)) = Some sn"
  shows "main prog args g r0 ds uw evs =
      (case run evs (RealSenseViewer sn r0 ds uw) of
         None \<Rightarrow> None
       | Some (Inl (h, st)) \<Rightarrow> Some h
       | Some (Inr st) \<Rightarrow> Some (Exit 0))"
  using assms by (simp add: main_def info_switch_def Let_def)

lemma main_not_opened:
  "main prog args g r0 ds uw evs = Some (Exit 1)
    \<longleftrightarrow> \<not> info_switch (prog # args) \<and> map_of g (device_id (prog # args)) = None"
proof (cases "info_switch (prog # args)")
  case True
  then show ?thesis by (simp add: main_info)
next
  case False
  show ?thesis
  proof (cases "map_of g (device_id (prog # args))")
    case None
    with False show ?thesis by (simp add: main_def info_switch_def Let_def)
  next
    case (Some sn)
    with False have "main prog args g r0 ds uw evs \<noteq> Some (Exit 1)"
      using run_halt [of evs "RealSenseViewer sn r0 ds uw"]
      by (auto simp: main_opened split: option.splits sum.splits)
    with Some show ?thesis by simp
  qed
qed

lemma main_codes:
  assumes "main prog args g r0 ds uw evs = Some (Exit c)"
  shows "c = 0 \<or> c = 1 \<or> c = - 1"
proof (cases "info_switch (prog # args)")
  case True
  with assms show ?thesis by (simp add: main_info)
next
  case False
  show ?thesis
  proof (cases "map_of g (device_id (prog # args))")
    case None
    with False assms show ?thesis by (simp add: main_def info_switch_def Let_def)
  next
    case (Some sn)
    with False assms show ?thesis
      using run_halt [of evs "RealSenseViewer sn r0 ds uw"]
      by (auto simp: main_opened split: option.splits sum.splits)
  qed
qed

lemma main_zero:
  assumes "\<not> info_switch (prog # args) \<and> map_of g (device_id (prog # args)) = Some sn"
  shows "main prog args g r0 ds uw evs = Some (Exit 0)
    \<longleftrightarrow> (\<exists>pre post st. evs = pre @ post
          \<and> steps pre (RealSenseViewer sn r0 ds uw) = Inr st \<and> stopped st)"
proof -
  have "main prog args g r0 ds uw evs = Some (Exit 0)
      \<longleftrightarrow> (\<exists>st. run evs (RealSenseViewer sn r0 ds uw) = Some (Inr st))"
    using run_halt [of evs "RealSenseViewer sn r0 ds uw"]
    by (auto simp: main_opened [OF assms] split: option.splits sum.splits)
  then show ?thesis by (simp only: run_stop_iff)
qed

lemma main_minus:
  assumes "\<not> info_switch (prog # args) \<and> map_of g (device_id (prog # args)) = Some sn"
  shows "main prog args g r0 ds uw evs = Some (Exit (- 1))
    \<longleftrightarrow> (\<exists>pre post st. evs = pre @ press CHR ''s'' # post
          \<and> steps pre (RealSenseViewer sn r0 ds uw) = Inr st
          \<and> \<not> stopped st \<and> \<not> save_stream st \<and> cannot_create st)"
proof -
  have "main prog args g r0 ds uw evs = Some (Exit (- 1))
      \<longleftrightarrow> (\<exists>st. run evs (RealSenseViewer sn r0 ds uw) = Some (Inl (Exit (- 1), st)))"
    by (auto simp: main_opened [OF assms] split: option.splits sum.splits)
  then show ?thesis by (simp only: run_exit_iff)
qed

lemma main_error_line:
  assumes "\<not> info_switch (prog # args) \<and> map_of g (device_id (prog # args)) = Some sn"
    and "main prog args g r0 ds uw evs = Some (Exit (- 1))"
  shows "\<exists>st. run evs (RealSenseViewer sn r0 ds uw) = Some (Inl (Exit (- 1), st))
    \<and> last (err st) = ''Error creating save directory.''"
proof -
  from assms(2) obtain st where st: "run evs (RealSenseViewer sn r0 ds uw) = Some (Inl (Exit (- 1), st))"
    by (auto simp: main_opened [OF assms(1)] split: option.splits sum.splits)
  then have "last (err st) = ''Error creating save directory.''"
    using run_halt [of evs "RealSenseViewer sn r0 ds uw" "Exit (- 1)" st] by simp
  with st show ?thesis by (intro exI conjI)
qed

lemma main_ends:
  assumes "\<not> info_switch (prog # args) \<and> map_of g (device_id (prog # args)) = Some sn"
    and "Close \<in> set evs"
  shows "main prog args g r0 ds uw evs \<noteq> None"
  using run_ends [OF assms(2), of "RealSenseViewer sn r0 ds uw"]
  by (auto simp: main_opened [OF assms(1)] split: option.splits sum.splits)

text \<open>
  C9, as the claim states it, fails: with the device opened, a press of s in a working
  directory that already holds \<^verbatim>\<open>0001\<close> ends the process with the exit code -1, not 0.
\<close>

theorem exit_code_counterexample:
  "map_of [([], ''231400041-03'')] (device_id [''viewer'']) = Some ''231400041-03''
   \<and> main ''viewer'' [] [([], ''231400041-03'')] (1 / 20) [''0001''] {} [press CHR ''s'']
     = Some (Exit (- 1))"
proof -
  have "fmt4 1 = ''0001''" by code_simp
  then show ?thesis
    by (simp add: main_def device_id_def find_switch_def keyboardCallback_s key_s_def
        createStreamDirectory_def CreateDirectory_def RealSenseViewer_def Let_def)
qed

text \<open>
  C9, amended. With \<^verbatim>\<open>--help\<close>, \<^verbatim>\<open>-h\<close>, \<^verbatim>\<open>--list\<close> or \<^verbatim>\<open>-l\<close> the exit code is 0. The exit
  code is 1 exactly when none of them is given and the requested device cannot be opened.
  With the device opened, the exit code is 0 exactly when the events reach a state in
  which the viewer is stopped, every event before it having run to its end; and it is -1
  exactly when, with the viewer not stopped and recording off, s is pressed and the next
  session directory cannot be created: the run ends there, with the error line on
  standard error. The program exits with no other code, and it ends once the viewer is
  closed.
\<close>

theorem exit_codes:
  "(info_switch (prog # args) \<longrightarrow> main prog args g r0 ds uw evs = Some (Exit 0))
   \<and> (main prog args g r0 ds uw evs = Some (Exit 1)
        \<longleftrightarrow> \<not> info_switch (prog # args) \<and> map_of g (device_id (prog # args)) = None)
   \<and> (main prog args g r0 ds uw evs = Some (Exit c) \<longrightarrow> c = 0 \<or> c = 1 \<or> c = - 1)
   \<and> (\<not> info_switch (prog # args) \<and> map_of g (device_id (prog # args)) = Some sn \<longrightarrow>
        (main prog args g r0 ds uw evs = Some (Exit 0)
           \<longleftrightarrow> (\<exists>pre post st. evs = pre @ post
                \<and> steps pre (RealSenseViewer sn r0 ds uw) = Inr st \<and> stopped st))
      \<and> (main prog args g r0 ds uw evs = Some (Exit (- 1))
           \<longleftrightarrow> (\<exists>pre post st. evs = pre @ press CHR ''s'' # post
                \<and> steps pre (RealSenseViewer sn r0 ds uw) = Inr st
                \<and> \<not> stopped st \<and> \<not> save_stream st \<and> cannot_create st))
      \<and> (main prog args g r0 ds uw evs = Some (Exit (- 1))
           \<longrightarrow> (\<exists>st. run evs (RealSenseViewer sn r0 ds uw) = Some (Inl (Exit (- 1), st))
                \<and> last (err st) = ''Error creating save directory.''))
      \<and> (Close \<in> set evs \<longrightarrow> main prog args g r0 ds uw evs \<noteq> None))"
proof (intro conjI impI)
  assume "info_switch (prog # args)"
  then show "main prog args g r0 ds uw evs = Some (Exit 0)" by (rule main_info)
next
  show "main prog args g r0 ds uw evs = Some (Exit 1)
      \<longleftrightarrow> \<not> info_switch (prog # args) \<and> map_of g (device_id (prog # args)) = None"
    by (rule main_not_opened)
next
  assume "main prog args g r0 ds uw evs = Some (Exit c)"
  then show "c = 0 \<or> c = 1 \<or> c = - 1" by (rule main_codes)
next
  assume "\<not> info_switch (prog # args) \<and> map_of g (device_id (prog # args)) = Some sn"
  then show "main prog args g r0 ds uw evs = Some (Exit 0)
      \<longleftrightarrow> (\<exists>pre post st. evs = pre @ post
            \<and> steps pre (RealSenseViewer sn r0 ds uw) = Inr st \<and> stopped st)"
    by (rule main_zero)
next
  assume "\<not> info_switch (prog # args) \<and> map_of g (device_id (prog # args)) = Some sn"
  then show "main prog args g r0 ds uw evs = Some (Exit (- 1))
      \<longleftrightarrow> (\<exists>pre post st. evs = pre @ press CHR ''s'' # post
            \<and> steps pre (RealSenseViewer sn r0 ds uw) = Inr st
            \<and> \<not> stopped st \<and> \<not> save_stream st \<and> cannot_create st)"
    by (rule main_minus)
next
  assume "\<not> info_switch (prog # args) \<and> map_of g (device_id (prog # args)) = Some sn"
    and "main prog args g r0 ds uw evs = Some (Exit (- 1))"
  then show "\<exists>st. run evs (RealSenseViewer sn r0 ds uw) = Some (Inl (Exit (- 1), st))
      \<and> last (err st) = ''Error creating save directory.''"
    by (rule main_error_line)
next
  assume "\<not> info_switch (prog # args) \<and> map_of g (device_id (prog # args)) = Some sn"
    and "Close \<in> set evs"
  then show "main prog args g r0 ds uw evs \<noteq> None" by (rule main_ends)
qed

theorem exit_codes_witness:
  "main ''viewer'' [''--xyz'', ''--help''] [] (1 / 20) [] {} [] = Some (Exit 0)
   \<and> main ''viewer'' [''#2''] [([], ''231400041-03'')] (1 / 20) [] {} [Close] = Some (Exit 1)
   \<and> main ''viewer'' [''--xyz''] [([], ''231400041-03'')] (1 / 20) [] {}
        [Frame (Captured 1), Refresh, press CHR ''p'', Close, press CHR ''p''] = Some (Exit 0)
   \<and> main ''viewer'' [] [([], ''231400041-03'')] (1 / 20) [''0001''] {}
        [Frame (Captured 1), Refresh, press CHR ''s'', Close] = Some (Exit (- 1))
   \<and> run [Frame (Captured 1), Refresh, press CHR ''s'', Close]
        (RealSenseViewer ''231400041-03'' (1 / 20) [''0001''] {})
     = Some (Inl (Exit (- 1), (RealSenseViewer ''231400041-03'' (1 / 20) [''0001''] {})
          \<lparr>save_stream := True, stream_id := 1, frame_id := 1, last_cloud := Some (Captured 1),
           displayed := [Captured 1], attempts := [''0001''],
           err := [''Error creating save directory.'']\<rparr>))"
proof -
  have f: "fmt4 1 = ''0001''" by code_simp
  have e: "run [Frame (Captured 1), Refresh, press CHR ''s'', Close]
        (RealSenseViewer ''231400041-03'' (1 / 20) [''0001''] {})
     = Some (Inl (Exit (- 1), (RealSenseViewer ''231400041-03'' (1 / 20) [''0001''] {})
          \<lparr>save_stream := True, stream_id := 1, frame_id := 1, last_cloud := Some (Captured 1),
           displayed := [Captured 1], attempts := [''0001''],
           err := [''Error creating save directory.'']\<rparr>))"
    by (simp add: keyboardCallback_s key_s_def createStreamDirectory_def CreateDirectory_def
        cloudCallback_def refresh_def RealSenseViewer_def Let_def f)
  have 1: "info_switch [''viewer'', ''--xyz'', ''--help'']"
    by (simp add: info_switch_def find_switch_def)
  have 2: "\<not> info_switch [''viewer'', ''#2'']
      \<and> map_of [([], ''231400041-03'')] (device_id [''viewer'', ''#2'']) = None"
    by (simp add: info_switch_def find_switch_def device_id_def)
  have 3: "\<not> info_switch [''viewer'', ''--xyz'']
      \<and> map_of [([], ''231400041-03'')] (device_id [''viewer'', ''--xyz'']) = Some ''231400041-03''"
    by (simp add: info_switch_def find_switch_def device_id_def)
  have 4: "\<not> info_switch [''viewer'']
      \<and> map_of [([], ''231400041-03'')] (device_id [''viewer'']) = Some ''231400041-03''"
    by (simp add: info_switch_def find_switch_def device_id_def)
  define s3 where "s3 = final (steps [Frame (Captured 1), Refresh, press CHR ''p'', Close]
      (RealSenseViewer ''231400041-03'' (1 / 20) [] {}))"
  have 5: "[Frame (Captured 1), Refresh, press CHR ''p'', Close, press CHR ''p'']
        = [Frame (Captured 1), Refresh, press CHR ''p'', Close] @ [press CHR ''p'']
      \<and> steps [Frame (Captured 1), Refresh, press CHR ''p'', Close]
          (RealSenseViewer ''231400041-03'' (1 / 20) [] {}) = Inr s3
      \<and> stopped s3"
    by (simp add: s3_def keyboardCallback_p key_p_def cloudCallback_def refresh_def
        RealSenseViewer_def Let_def)
  define s4 where "s4 = final (steps [Frame (Captured 1), Refresh]
      (RealSenseViewer ''231400041-03'' (1 / 20) [''0001''] {}))"
  have 6: "[Frame (Captured 1), Refresh, press CHR ''s'', Close]
        = [Frame (Captured 1), Refresh] @ press CHR ''s'' # [Close]
      \<and> steps [Frame (Captured 1), Refresh]
          (RealSenseViewer ''231400041-03'' (1 / 20) [''0001''] {}) = Inr s4
      \<and> \<not> stopped s4 \<and> \<not> save_stream s4 \<and> cannot_create s4"
    by (simp add: s4_def cannot_create_def cloudCallback_def refresh_def RealSenseViewer_def Let_def f)
  note a = exit_codes [of "''viewer''" "[''--xyz'', ''--help'']" "[]" "1 / 20" "[]" "{}" "[]",
      THEN conjunct1, THEN mp, OF 1]
  note b = exit_codes [of "''viewer''" "[''#2'']" "[([], ''231400041-03'')]" "1 / 20" "[]" "{}" "[Close]",
      THEN conjunct2, THEN conjunct1, THEN iffD2, OF 2]
  note c = exit_codes [of "''viewer''" "[''--xyz'']" "[([], ''231400041-03'')]" "1 / 20" "[]" "{}"
      "[Frame (Captured 1), Refresh, press CHR ''p'', Close, press CHR ''p'']" _ "''231400041-03''",
      THEN conjunct2, THEN conjunct2, THEN conjunct2, THEN mp, OF 3, THEN conjunct1, THEN iffD2]
  note d = exit_codes [of "''viewer''" "[]" "[([], ''231400041-03'')]" "1 / 20" "[''0001'']" "{}"
      "[Frame (Captured 1), Refresh, press CHR ''s'', Close]" _ "''231400041-03''",
      THEN conjunct2, THEN conjunct2, THEN conjunct2, THEN mp, OF 4, THEN conjunct2, THEN conjunct1,
      THEN iffD2]
  have "main ''viewer'' [''--xyz''] [([], ''231400041-03'')] (1 / 20) [] {}
        [Frame (Captured 1), Refresh, press CHR ''p'', Close, press CHR ''p''] = Some (Exit 0)"
    by (rule c, rule exI [where x = "[Frame (Captured 1), Refresh, press CHR ''p'', Close]"],
        rule exI [where x = "[press CHR ''p'']"], rule exI [where x = s3]) (rule 5)
  moreover
  have "main ''viewer'' [] [([], ''231400041-03'')] (1 / 20) [''0001''] {}
        [Frame (Captured 1), Refresh, press CHR ''s'', Close] = Some (Exit (- 1))"
    by (rule d, rule exI [where x = "[Frame (Captured 1), Refresh]"],
        rule exI [where x = "[Close]"], rule exI [where x = s4]) (rule 6)
  ultimately show ?thesis using a b e by (intro conjI)
qed

end
